theory Spec2Isabelle
  imports Complex_Main
begin

section \<open>JavaScript values and the operators the route handler applies to them\<close>

text \<open>
  The handler works on values decoded from JSON (the request body, the remote server's
  responses, the embedded log messages), all of them untyped at run time. A value is
  \<open>undefined\<close>, \<open>null\<close>, a boolean, a number, a string, an array or an object.
  An object is the association list of its own properties.

  A number is finite or one of the two infinities (JSON decodes a literal beyond the
  range of the doubles to an infinity). A finite number is the rational it equals: every
  double is one, and \<open>0\<close> and \<open>-0\<close> are one value, which no operator of the handler tells
  apart. NaN is not a value that JSON decodes to, and the handler computes no number of
  its own from these values: NaN occurs only as the outcome of a numeric conversion.
\<close>

datatype number =
    Finite rat
  | Infinity
  | NegInfinity

datatype jsval =
    JUndefined
  | JNull
  | JBool bool
  | JNum number
  | JStr string
  | JArr "jsval list"
  | JObj "(string \<times> jsval) list"

text \<open>
  What the handler can throw: \<open>new Error(msg)\<close> of its own, and the built-in errors of
  \<open>JSON.parse\<close> (SyntaxError), of a property read on \<open>null\<close>/\<open>undefined\<close> or a call of a
  missing method (TypeError), of \<open>toISOString\<close> on an invalid date (RangeError), of the
  socket (NetworkError) and of the store (SqliteError).
\<close>

datatype exn =
    Error string
  | SyntaxError
  | TypeError
  | RangeError
  | NetworkError
  | SqliteError

text \<open>\<open>error.message\<close>; the engine's wording for a built-in error is not modelled, its kind stands for it.\<close>

fun exn_message :: "exn \<Rightarrow> string" where
  "exn_message (Error msg) = msg"
| "exn_message SyntaxError = ''SyntaxError''"
| "exn_message TypeError = ''TypeError''"
| "exn_message RangeError = ''RangeError''"
| "exn_message NetworkError = ''NetworkError''"
| "exn_message SqliteError = ''SqliteError''"

text \<open>Truthiness, as \<open>!v\<close>, \<open>v || d\<close> and \<open>v ? a : b\<close> test it.\<close>

fun js_truthy :: "jsval \<Rightarrow> bool" where
  "js_truthy JUndefined = False"
| "js_truthy JNull = False"
| "js_truthy (JBool b) = b"
| "js_truthy (JNum n) = (n \<noteq> Finite 0)"
| "js_truthy (JStr s) = (s \<noteq> [])"
| "js_truthy (JArr vs) = True"
| "js_truthy (JObj kvs) = True"

text \<open>\<open>a || b\<close>\<close>

definition js_or :: "jsval \<Rightarrow> jsval \<Rightarrow> jsval" where
  "js_or a b = (if js_truthy a then a else b)"

text \<open>\<open>v ? 1 : 0\<close>\<close>

definition js_flag :: "jsval \<Rightarrow> jsval" where
  "js_flag v = (if js_truthy v then JNum (Finite 1) else JNum (Finite 0))"

text \<open>A destructuring default \<open>{ x = d }\<close>: only \<open>undefined\<close> takes the default.\<close>

definition js_default :: "jsval \<Rightarrow> jsval \<Rightarrow> jsval" where
  "js_default v d = (if v = JUndefined then d else v)"

text \<open>
  \<open>v.name\<close> for a value that is not \<open>null\<close> or \<open>undefined\<close>. The handler reads only names
  that no primitive, array or prototype carries, so every value but an object having the
  property gives \<open>undefined\<close>.
\<close>

fun js_prop :: "jsval \<Rightarrow> string \<Rightarrow> jsval" where
  "js_prop (JObj kvs) name = (case map_of kvs name of Some v \<Rightarrow> v | None \<Rightarrow> JUndefined)"
| "js_prop v name = JUndefined"

text \<open>\<open>v.name\<close>: a TypeError on \<open>null\<close> and \<open>undefined\<close>.\<close>

fun js_get :: "jsval \<Rightarrow> string \<Rightarrow> exn + jsval" where
  "js_get JUndefined name = Inl TypeError"
| "js_get JNull name = Inl TypeError"
| "js_get v name = Inr (js_prop v name)"

text \<open>\<open>v?.name\<close>: \<open>undefined\<close> on \<open>null\<close> and \<open>undefined\<close>.\<close>

definition js_opt :: "jsval \<Rightarrow> string \<Rightarrow> jsval" where
  "js_opt v name = js_prop v name"

text \<open>
  \<open>a === b\<close>. Primitives compare by value. Arrays and objects compare by identity, and two
  values decoded at different places of a JSON text are never identical: \<open>js_strict_eq\<close>
  is the comparison of values from different places.
\<close>

fun is_reference :: "jsval \<Rightarrow> bool" where
  "is_reference (JArr vs) = True"
| "is_reference (JObj kvs) = True"
| "is_reference v = False"

definition js_strict_eq :: "jsval \<Rightarrow> jsval \<Rightarrow> bool" where
  "js_strict_eq a b = (\<not> is_reference a \<and> a = b)"


section \<open>The world outside the handler\<close>

text \<open>
  One HTTP(S) request as \<open>makeRequest\<close> issues it: the URL, the verb (\<open>method\<close>), the headers, the
  body if any, and the agent (present for https only, holding \<open>rejectUnauthorized\<close>).
\<close>

record request =
  url :: string
  http_method :: string
  headers :: "(string \<times> string) list"
  body :: "string option"
  agent :: "bool option"

text \<open>What the socket delivers: the status line (either part may be missing) and the body text.\<close>

record raw_response =
  statusCode :: "nat option"
  statusMessage :: "string option"
  data :: string

text \<open>The object \<open>makeRequest\<close> resolves to; \<open>json\<close> is the decoded body.\<close>

record http_response =
  ok :: bool
  status_code :: nat
  statusText :: string
  json :: jsval

text \<open>
  The run-time services the handler calls and does not define: the remote server behind
  the socket (\<open>None\<close> is the request's \<open>error\<close> event; the server answers as a function
  of the request), \<open>JSON.parse\<close> (\<open>None\<close> is its SyntaxError), \<open>JSON.stringify\<close>,
  \<open>new Date(v).toISOString()\<close> (\<open>None\<close> is the RangeError of an invalid date),
  \<open>uuidv4()\<close> (the identifier drawn at the n-th call), and the engine's two conversions
  between numbers and texts, which the language leaves to the engine in part: the text
  of a finite number (\<open>Number.prototype.toString\<close>) and the number read in a string
  (\<open>None\<close> is NaN).
\<close>

record env =
  transport :: "request \<Rightarrow> raw_response option"
  json_parse :: "string \<Rightarrow> jsval option"
  json_stringify :: "jsval \<Rightarrow> string"
  date_iso :: "jsval \<Rightarrow> string option"
  uuidv4 :: "nat \<Rightarrow> string"
  number_text :: "rat \<Rightarrow> string"
  text_number :: "string \<Rightarrow> number option"

text \<open>A row of the backups table: the parameter object handed to \<open>insertBackup.run\<close>.\<close>

type_synonym row = "(string \<times> jsval) list"

text \<open>The effects of one invocation, in the order they happen.\<close>

datatype event =
    NetRequest request
  | DbUpsertMachine jsval jsval
  | DbCheckDuplicate jsval jsval jsval bool
  | DbInsertBackup row

text \<open>
  The persisted store (machines by id, backup runs), the log of effects so far, and the
  number of identifiers drawn from \<open>uuidv4\<close>.
\<close>

record world =
  machines_table :: "(jsval \<times> jsval) list"
  backups_table :: "row list"
  trace :: "event list"
  uuid_calls :: nat

section \<open>Conversions between values, texts and numbers\<close>

text \<open>Decimal digits of a whole number.\<close>

fun show_nat :: "nat \<Rightarrow> string" where
  "show_nat n =
     (if n < 10 then [''0123456789'' ! n]
      else show_nat (n div 10) @ [''0123456789'' ! (n mod 10)])"

declare show_nat.simps [simp del]

definition show_int :: "int \<Rightarrow> string" where
  "show_int n = (if n < 0 then CHR ''-'' # show_nat (nat (- n)) else show_nat (nat n))"

text \<open>
  The text of a number. A safe integer (a whole number of magnitude at most 2^53 - 1)
  prints as its decimal digits; the text of any other finite number is the engine's
  (\<open>number_text\<close>).
\<close>

definition is_safe_integer :: "rat \<Rightarrow> bool" where
  "is_safe_integer q \<longleftrightarrow> q = of_int \<lfloor>q\<rfloor> \<and> \<bar>q\<bar> \<le> 9007199254740991"

fun number_to_string :: "env \<Rightarrow> number \<Rightarrow> string" where
  "number_to_string e (Finite q) = (if is_safe_integer q then show_int \<lfloor>q\<rfloor> else number_text e q)"
| "number_to_string e Infinity = ''Infinity''"
| "number_to_string e NegInfinity = ''-Infinity''"

text \<open>
  String conversion, as a template literal \<open>`${v}`\<close> and \<open>JSON.parse(v)\<close> apply it: an array
  joins its elements with commas, \<open>null\<close> and \<open>undefined\<close> elements as empty strings.
\<close>

fun js_to_string :: "env \<Rightarrow> jsval \<Rightarrow> string"
  and js_join :: "env \<Rightarrow> jsval list \<Rightarrow> string" where
  "js_to_string e JUndefined = ''undefined''"
| "js_to_string e JNull = ''null''"
| "js_to_string e (JBool b) = (if b then ''true'' else ''false'')"
| "js_to_string e (JNum n) = number_to_string e n"
| "js_to_string e (JStr s) = s"
| "js_to_string e (JArr vs) = js_join e vs"
| "js_to_string e (JObj kvs) = ''[object Object]''"
| "js_join e [] = []"
| "js_join e [v] = (if v = JUndefined \<or> v = JNull then [] else js_to_string e v)"
| "js_join e (v # w # vs) =
     (if v = JUndefined \<or> v = JNull then [] else js_to_string e v) @ '','' @ js_join e (w # vs)"

text \<open>
  Numeric conversion, as \<open>v > 0\<close> applies it; \<open>None\<close> is NaN. \<open>undefined\<close> is NaN, \<open>null\<close>
  is 0, \<open>true\<close> is 1 and \<open>false\<close> is 0, a number is itself, a string is the number the
  engine reads in it (\<open>text_number\<close>), and an array or object is first converted to its
  string.
\<close>

fun js_to_number :: "env \<Rightarrow> jsval \<Rightarrow> number option" where
  "js_to_number e JUndefined = None"
| "js_to_number e JNull = Some (Finite 0)"
| "js_to_number e (JBool b) = Some (Finite (if b then 1 else 0))"
| "js_to_number e (JNum n) = Some n"
| "js_to_number e (JStr s) = text_number e s"
| "js_to_number e (JArr vs) = text_number e (js_to_string e (JArr vs))"
| "js_to_number e (JObj kvs) = text_number e (js_to_string e (JObj kvs))"

text \<open>\<open>n > 0\<close> for a number.\<close>

fun gt_zero :: "number \<Rightarrow> bool" where
  "gt_zero (Finite q) = (0 < q)"
| "gt_zero Infinity = True"
| "gt_zero NegInfinity = False"

text \<open>\<open>v > 0\<close>: false when \<open>v\<close> converts to NaN.\<close>

definition js_gt_zero :: "env \<Rightarrow> jsval \<Rightarrow> bool" where
  "js_gt_zero e v = (case js_to_number e v of None \<Rightarrow> False | Some n \<Rightarrow> gt_zero n)"

section \<open>The persistence sink\<close>

definition row_field :: "row \<Rightarrow> string \<Rightarrow> jsval" where
  "row_field r name = (case map_of r name of Some v \<Rightarrow> v | None \<Rightarrow> JUndefined)"

text \<open>The dedup triple of a row: machine id, backup name, start time.\<close>

definition row_key :: "row \<Rightarrow> jsval \<times> jsval \<times> jsval" where
  "row_key r = (row_field r ''machine_id'', row_field r ''backup_name'', row_field r ''date'')"

text \<open>
  Modelled from the spec: \<open>dbOps.upsertMachine\<close> of \<open>@/lib/db\<close> is not among the sources.
  The spec: upserted by id; a later run with the same id and a changed name overwrites the
  name, never duplicates the row; created on first sighting.
\<close>

definition upsertMachine :: "(jsval \<times> jsval) list \<Rightarrow> jsval \<Rightarrow> jsval \<Rightarrow> (jsval \<times> jsval) list" where
  "upsertMachine table mid name =
     (if mid \<in> fst ` set table
      then map (\<lambda>(k, v). if k = mid then (k, name) else (k, v)) table
      else table @ [(mid, name)])"

text \<open>
  Modelled from the spec: \<open>dbUtils.checkDuplicateBackup\<close> of \<open>@/lib/db-utils\<close> is not among
  the sources. The spec: a read-only lookup against persisted BackupRun records on the
  exact-match triple (machine id, backup name, start time).
\<close>

definition checkDuplicateBackup :: "row list \<Rightarrow> jsval \<Rightarrow> jsval \<Rightarrow> jsval \<Rightarrow> bool" where
  "checkDuplicateBackup table machine_id backup_name date =
     list_ex (\<lambda>r. row_key r = (machine_id, backup_name, date)) table"

text \<open>
  Modelled from the spec: \<open>dbOps.insertBackup\<close> of \<open>@/lib/db\<close> is not among the sources.
  The spec: inserts a new run record; must reject (no-op or error) if the dedup triple
  already exists. The rejection is modelled as the error.
\<close>

definition insertBackup :: "row list \<Rightarrow> row \<Rightarrow> exn + row list" where
  "insertBackup table r =
     (case row_key r of (m, n, d) \<Rightarrow>
        if checkDuplicateBackup table m n d then Inl SqliteError else Inr (table @ [r]))"

section \<open>Duration strings\<close>

text \<open>A run of decimal digits and its value.\<close>

definition digit_of :: "char \<Rightarrow> nat option" where
  "digit_of c = map_of
     [(CHR ''0'', 0), (CHR ''1'', 1), (CHR ''2'', 2), (CHR ''3'', 3), (CHR ''4'', 4),
      (CHR ''5'', 5), (CHR ''6'', 6), (CHR ''7'', 7), (CHR ''8'', 8), (CHR ''9'', 9)] c"

fun digits_value :: "nat \<Rightarrow> string \<Rightarrow> nat option" where
  "digits_value acc [] = Some acc"
| "digits_value acc (c # cs) =
     (case digit_of c of None \<Rightarrow> None | Some d \<Rightarrow> digits_value (acc * 10 + d) cs)"

definition parse_nat :: "string \<Rightarrow> nat option" where
  "parse_nat s = (if s = [] then None else digits_value 0 s)"

fun split_on :: "char \<Rightarrow> string \<Rightarrow> string list" where
  "split_on sep [] = [[]]"
| "split_on sep (c # cs) =
     (if c = sep then [] # split_on sep cs
      else (case split_on sep cs of [] \<Rightarrow> [[c]] | p # ps \<Rightarrow> (c # p) # ps))"

text \<open>The \<open>[days.]HH\<close> part: days (0 when absent) and hours.\<close>

definition days_hours :: "string \<Rightarrow> (nat \<times> nat) option" where
  "days_hours p =
     (case split_on CHR ''.'' p of
        [hh] \<Rightarrow> map_option (Pair 0) (parse_nat hh)
      | [dd, hh] \<Rightarrow>
          (case (parse_nat dd, parse_nat hh) of
             (Some d, Some h) \<Rightarrow> Some (d, h)
           | _ \<Rightarrow> None)
      | _ \<Rightarrow> None)"

text \<open>The \<open>SS[.fractional]\<close> part: the whole seconds; the fraction is dropped.\<close>

definition whole_seconds :: "string \<Rightarrow> nat option" where
  "whole_seconds p =
     (case split_on CHR ''.'' p of
        [ss] \<Rightarrow> parse_nat ss
      | [ss, fraction] \<Rightarrow> (case parse_nat fraction of None \<Rightarrow> None | Some f \<Rightarrow> parse_nat ss)
      | _ \<Rightarrow> None)"

text \<open>
  Modelled from the spec: \<open>parseDurationToSeconds\<close> of \<open>@/lib/db\<close> is not among the sources.
  The spec: \<open>duration_seconds\<close> is derived from a duration string (format
  \<open>[days.]HH:MM:SS[.fractional]\<close>) converted to total whole seconds; absence or unparsable
  input yields 0, not an error.
\<close>

definition parseDurationToSeconds :: "jsval \<Rightarrow> int" where
  "parseDurationToSeconds duration =
     (case duration of
        JStr s \<Rightarrow>
          (case split_on CHR '':'' s of
             [p1, mm, p3] \<Rightarrow>
               (case (days_hours p1, parse_nat mm, whole_seconds p3) of
                  (Some (d, h), Some m, Some sec) \<Rightarrow> int (d * 86400 + h * 3600 + m * 60 + sec)
                | _ \<Rightarrow> 0)
           | _ \<Rightarrow> 0)
      | _ \<Rightarrow> 0)"

section \<open>The request helper\<close>

text \<open>
  \<open>makeRequest\<close>: the promise rejects on the socket's error and when the body is not JSON
  (whatever the status), and resolves otherwise; \<open>ok\<close> is a status in 200..299, a missing
  status code counts as 500 and a missing status message as \<open>Unknown status\<close>.
  Which module sends the request (\<open>https\<close> when the URL starts with \<open>https\<close>, else \<open>http\<close>)
  is decided by the URL and so is part of what \<open>transport\<close> does with the request. Every
  request is taken to settle; a promise that never settles is outside the model.
\<close>

definition respond :: "env \<Rightarrow> request \<Rightarrow> exn + http_response" where
  "respond e req =
     (case transport e req of
        None \<Rightarrow> Inl NetworkError
      | Some res \<Rightarrow>
          (case json_parse e (data res) of
             None \<Rightarrow> Inl SyntaxError
           | Some parsedData \<Rightarrow>
               (let sc = (case statusCode res of None \<Rightarrow> 500 | Some c \<Rightarrow> c) in
                Inr \<lparr>ok = (200 \<le> sc \<and> sc < 300),
                     status_code = sc,
                     statusText = (case statusMessage res of None \<Rightarrow> ''Unknown status'' | Some m \<Rightarrow> m),
                     json = parsedData\<rparr>)))"

text \<open>Issuing the request is the effect; how the promise settles is \<open>respond\<close>.\<close>

definition makeRequest :: "env \<Rightarrow> request \<Rightarrow> world \<Rightarrow> (exn + http_response) \<times> world" where
  "makeRequest e req w = (respond e req, w\<lparr>trace := trace w @ [NetRequest req]\<rparr>)"

section \<open>The collection handler\<close>

text \<open>What \<open>NextResponse.json(body, { status })\<close> returns; the status is 200 when not given.\<close>

datatype next_response = NextResponse_json jsval nat

text \<open>The three tallies of step 4.\<close>

record counters =
  processedCount :: nat
  skippedCount :: nat
  errorCount :: nat

text \<open>\<open>requestOptions\<close>: the two JSON headers, and for https the agent.\<close>

definition requestOptions :: "jsval \<Rightarrow> jsval \<Rightarrow> request" where
  "requestOptions protocol allowSelfSigned =
     \<lparr>url = [],
      http_method = ''GET'',
      headers = [(''Content-Type'', ''application/json''), (''Accept'', ''application/json'')],
      body = None,
      agent = (if protocol = JStr ''https'' then Some (\<not> js_truthy allowSelfSigned) else None)\<rparr>"

text \<open>The options of an authorised request to \<open>target\<close>: the bearer header added.\<close>

definition authorized :: "env \<Rightarrow> request \<Rightarrow> string \<Rightarrow> jsval \<Rightarrow> request" where
  "authorized e opts target authToken =
     opts\<lparr>url := target,
          headers := headers opts @ [(''Authorization'', ''Bearer '' @ js_to_string e authToken)]\<rparr>"

text \<open>The four requests of the handler.\<close>

definition login_request :: "env \<Rightarrow> request \<Rightarrow> string \<Rightarrow> jsval \<Rightarrow> request" where
  "login_request e opts baseUrl password =
     opts\<lparr>url := baseUrl @ ''/api/v1/auth/login'',
          http_method := ''POST'',
          body := Some (json_stringify e
                    (JObj [(''Password'', password), (''RememberMe'', JBool True)]))\<rparr>"

definition systeminfo_request :: "env \<Rightarrow> request \<Rightarrow> string \<Rightarrow> jsval \<Rightarrow> request" where
  "systeminfo_request e opts baseUrl authToken =
     authorized e opts (baseUrl @ ''/api/v1/systeminfo'') authToken"

definition backups_request :: "env \<Rightarrow> request \<Rightarrow> string \<Rightarrow> jsval \<Rightarrow> request" where
  "backups_request e opts baseUrl authToken =
     authorized e opts (baseUrl @ ''/api/v1/backups'') authToken"

definition log_request :: "env \<Rightarrow> request \<Rightarrow> string \<Rightarrow> jsval \<Rightarrow> jsval \<Rightarrow> request" where
  "log_request e opts baseUrl authToken backupId =
     authorized e opts
       (baseUrl @ ''/api/v1/backup'' @ ''/'' @ js_to_string e backupId @ ''/log?pagesize=999'')
       authToken"

text \<open>Step 1: login and get the token.\<close>

definition login :: "env \<Rightarrow> request \<Rightarrow> string \<Rightarrow> jsval \<Rightarrow> world \<Rightarrow> (exn + jsval) \<times> world" where
  "login e opts baseUrl password w =
     (case makeRequest e (login_request e opts baseUrl password) w of
        (Inl x, w1) \<Rightarrow> (Inl x, w1)
      | (Inr loginResponse, w1) \<Rightarrow>
          if \<not> ok loginResponse
          then (Inl (Error (''Login failed: '' @ statusText loginResponse)), w1)
          else (case js_get (json loginResponse) ''AccessToken'' of
                  Inl x \<Rightarrow> (Inl x, w1)
                | Inr authToken \<Rightarrow>
                    if \<not> js_truthy authToken
                    then (Inl (Error ''No authentication token received''), w1)
                    else (Inr authToken, w1)))"

text \<open>\<open>Options.find((opt) => opt.Name === 'machine-id')\<close>: the first such option, else \<open>undefined\<close>.\<close>

fun find_machine_id :: "jsval list \<Rightarrow> exn + jsval" where
  "find_machine_id [] = Inr JUndefined"
| "find_machine_id (opt # opts) =
     (case js_get opt ''Name'' of
        Inl x \<Rightarrow> Inl x
      | Inr name \<Rightarrow> if name = JStr ''machine-id'' then Inr opt else find_machine_id opts)"

text \<open>
  \<open>systemInfo.Options?.find(...)?.DefaultValue\<close>: \<open>undefined\<close> without options, a TypeError
  when \<open>Options\<close> is neither missing nor an array (it has no \<open>find\<close>).
\<close>

definition machine_id_of :: "jsval \<Rightarrow> exn + jsval" where
  "machine_id_of systemInfo =
     (case js_get systemInfo ''Options'' of
        Inl x \<Rightarrow> Inl x
      | Inr JUndefined \<Rightarrow> Inr JUndefined
      | Inr JNull \<Rightarrow> Inr JUndefined
      | Inr (JArr opts) \<Rightarrow>
          (case find_machine_id opts of
             Inl x \<Rightarrow> Inl x
           | Inr found \<Rightarrow> Inr (js_opt found ''DefaultValue''))
      | Inr other \<Rightarrow> Inl TypeError)"

text \<open>Step 2: get the system info; the machine id and name.\<close>

definition getSystemInfo ::
  "env \<Rightarrow> request \<Rightarrow> string \<Rightarrow> jsval \<Rightarrow> world \<Rightarrow> (exn + jsval \<times> jsval) \<times> world" where
  "getSystemInfo e opts baseUrl authToken w =
     (case makeRequest e (systeminfo_request e opts baseUrl authToken) w of
        (Inl x, w1) \<Rightarrow> (Inl x, w1)
      | (Inr systemInfoResponse, w1) \<Rightarrow>
          if \<not> ok systemInfoResponse
          then (Inl (Error (''Failed to get system info: '' @ statusText systemInfoResponse)), w1)
          else (case machine_id_of (json systemInfoResponse) of
                  Inl x \<Rightarrow> (Inl x, w1)
                | Inr machineId \<Rightarrow>
                    (let machineName = js_prop (json systemInfoResponse) ''MachineName'' in
                     if \<not> js_truthy machineId \<or> \<not> js_truthy machineName
                     then (Inl (Error ''Could not get machine information''), w1)
                     else (Inr (machineId, machineName), w1))))"

text \<open>\<open>backups.map((b) => b.Backup.ID)\<close>\<close>

fun backup_ids :: "jsval list \<Rightarrow> exn + jsval list" where
  "backup_ids [] = Inr []"
| "backup_ids (b # bs) =
     (case js_get b ''Backup'' of
        Inl x \<Rightarrow> Inl x
      | Inr bk \<Rightarrow>
          (case js_get bk ''ID'' of
             Inl x \<Rightarrow> Inl x
           | Inr i \<Rightarrow>
               (case backup_ids bs of
                  Inl x \<Rightarrow> Inl x
                | Inr ids \<Rightarrow> Inr (i # ids))))"

text \<open>
  Step 3: get the list of backups; the decoded list and its ids. A body that is not an
  array has no \<open>map\<close>: TypeError.
\<close>

definition listBackups ::
  "env \<Rightarrow> request \<Rightarrow> string \<Rightarrow> jsval \<Rightarrow> world \<Rightarrow> (exn + jsval list \<times> jsval list) \<times> world" where
  "listBackups e opts baseUrl authToken w =
     (case makeRequest e (backups_request e opts baseUrl authToken) w of
        (Inl x, w1) \<Rightarrow> (Inl x, w1)
      | (Inr backupsResponse, w1) \<Rightarrow>
          if \<not> ok backupsResponse
          then (Inl (Error (''Failed to get backups list: '' @ statusText backupsResponse)), w1)
          else (case json backupsResponse of
                  JArr backups \<Rightarrow>
                    (case backup_ids backups of
                       Inl x \<Rightarrow> (Inl x, w1)
                     | Inr backupIds \<Rightarrow> (Inr (backups, backupIds), w1))
                | other \<Rightarrow> (Inl TypeError, w1)))"

text \<open>\<open>JSON.parse(log.Message)\<close>; \<open>JSON.parse\<close> converts its argument to a string first.\<close>

definition parse_message :: "env \<Rightarrow> jsval \<Rightarrow> exn + jsval" where
  "parse_message e log_entry =
     (case js_get log_entry ''Message'' of
        Inl x \<Rightarrow> Inl x
      | Inr m \<Rightarrow>
          (case json_parse e (js_to_string e m) of
             None \<Rightarrow> Inl SyntaxError
           | Some v \<Rightarrow> Inr v))"

text \<open>The callback of \<open>logs.filter\<close>: any error inside it is caught and gives \<open>false\<close>.\<close>

definition is_backup_message :: "env \<Rightarrow> jsval \<Rightarrow> bool" where
  "is_backup_message e log_entry =
     (case parse_message e log_entry of
        Inl x \<Rightarrow> False
      | Inr messageObj \<Rightarrow> js_opt messageObj ''MainOperation'' = JStr ''Backup'')"

text \<open>
  \<open>backups.find((b) => b.Backup.ID === backupId)?.Backup.Name\<close>, for the \<open>backupId\<close> taken
  from position \<open>i\<close> of the list: an id that is an array or object is identical to itself
  only, a primitive id equals every same-valued id. The reads cannot throw, \<open>map\<close> has
  made them before.
\<close>

definition find_backup_name :: "jsval list \<Rightarrow> nat \<Rightarrow> jsval \<Rightarrow> jsval" where
  "find_backup_name backups i backupId =
     (case find (\<lambda>(j, b). js_strict_eq (js_prop (js_prop b ''Backup'') ''ID'') backupId
                          \<or> (j = i \<and> is_reference backupId))
                (enumerate 0 backups) of
        None \<Rightarrow> JUndefined
      | Some (j, b) \<Rightarrow> js_prop (js_prop b ''Backup'') ''Name'')"

text \<open>Map backup status.\<close>

definition map_status :: "env \<Rightarrow> jsval \<Rightarrow> jsval" where
  "map_status e message =
     (let status = js_prop message ''ParsedResult'' in
      if status = JStr ''Success'' \<and> js_gt_zero e (js_prop message ''WarningsActualLength'')
      then JStr ''Warning''
      else status)"

text \<open>\<open>v ? JSON.stringify(v) : null\<close>\<close>

definition opt_json :: "env \<Rightarrow> jsval \<Rightarrow> jsval" where
  "opt_json e v = (if js_truthy v then JStr (json_stringify e v) else JNull)"

text \<open>\<open>v ? new Date(v).toISOString() : null\<close>\<close>

definition opt_date :: "env \<Rightarrow> jsval \<Rightarrow> exn + jsval" where
  "opt_date e v =
     (if js_truthy v
      then (case date_iso e v of None \<Rightarrow> Inl RangeError | Some s \<Rightarrow> Inr (JStr s))
      else Inr JNull)"


text \<open>
  The parameter object of \<open>insertBackup.run\<close>, its properties in the order of the source,
  given the four dates already converted.
\<close>

definition row_literal ::
  "env \<Rightarrow> jsval \<Rightarrow> jsval \<Rightarrow> jsval \<Rightarrow> jsval \<Rightarrow> string \<Rightarrow> jsval \<Rightarrow> jsval
     \<Rightarrow> jsval \<Rightarrow> jsval \<Rightarrow> jsval \<Rightarrow> jsval \<Rightarrow> row" where
  "row_literal e rid machineId backupName backupId backupDate status message
     begin_time end_time last_backup_date backend_begin_time =
   (let m = js_prop message;
        bs = js_opt (js_prop message ''BackendStatistics'');
        num = (\<lambda>v. js_or v (JNum (Finite 0)))
    in
    [(''id'', rid),
     (''machine_id'', machineId),
     (''backup_name'', backupName),
     (''backup_id'', backupId),
     (''date'', JStr backupDate),
     (''status'', status),
     (''duration_seconds'', JNum (Finite (of_int (parseDurationToSeconds (m ''Duration''))))),
     (''size'', num (m ''SizeOfExaminedFiles'')),
     (''uploaded_size'', num (bs ''BytesUploaded'')),
     (''examined_files'', num (m ''ExaminedFiles'')),
     (''warnings'', num (m ''WarningsActualLength'')),
     (''errors'', num (m ''ErrorsActualLength'')),
     (''messages_array'', opt_json e (m ''Messages'')),
     (''warnings_array'', opt_json e (m ''Warnings'')),
     (''errors_array'', opt_json e (m ''Errors'')),
     (''deleted_files'', num (m ''DeletedFiles'')),
     (''deleted_folders'', num (m ''DeletedFolders'')),
     (''modified_files'', num (m ''ModifiedFiles'')),
     (''opened_files'', num (m ''OpenedFiles'')),
     (''added_files'', num (m ''AddedFiles'')),
     (''size_of_modified_files'', num (m ''SizeOfModifiedFiles'')),
     (''size_of_added_files'', num (m ''SizeOfAddedFiles'')),
     (''size_of_examined_files'', num (m ''SizeOfExaminedFiles'')),
     (''size_of_opened_files'', num (m ''SizeOfOpenedFiles'')),
     (''not_processed_files'', num (m ''NotProcessedFiles'')),
     (''added_folders'', num (m ''AddedFolders'')),
     (''too_large_files'', num (m ''TooLargeFiles'')),
     (''files_with_error'', num (m ''FilesWithError'')),
     (''modified_folders'', num (m ''ModifiedFolders'')),
     (''modified_symlinks'', num (m ''ModifiedSymlinks'')),
     (''added_symlinks'', num (m ''AddedSymlinks'')),
     (''deleted_symlinks'', num (m ''DeletedSymlinks'')),
     (''partial_backup'', js_flag (m ''PartialBackup'')),
     (''dryrun'', js_flag (m ''Dryrun'')),
     (''main_operation'', m ''MainOperation''),
     (''parsed_result'', m ''ParsedResult''),
     (''interrupted'', js_flag (m ''Interrupted'')),
     (''version'', m ''Version''),
     (''begin_time'', begin_time),
     (''end_time'', end_time),
     (''warnings_actual_length'', num (m ''WarningsActualLength'')),
     (''errors_actual_length'', num (m ''ErrorsActualLength'')),
     (''messages_actual_length'', num (m ''MessagesActualLength'')),
     (''bytes_downloaded'', num (bs ''BytesDownloaded'')),
     (''known_file_size'', num (bs ''KnownFileSize'')),
     (''last_backup_date'', last_backup_date),
     (''backup_list_count'', num (bs ''BackupListCount'')),
     (''reported_quota_error'', js_flag (bs ''ReportedQuotaError'')),
     (''reported_quota_warning'', js_flag (bs ''ReportedQuotaWarning'')),
     (''backend_main_operation'', bs ''MainOperation''),
     (''backend_parsed_result'', bs ''ParsedResult''),
     (''backend_interrupted'', js_flag (bs ''Interrupted'')),
     (''backend_version'', bs ''Version''),
     (''backend_begin_time'', backend_begin_time),
     (''backend_duration'', bs ''Duration''),
     (''backend_warnings_actual_length'', num (bs ''WarningsActualLength'')),
     (''backend_errors_actual_length'', num (bs ''ErrorsActualLength''))])"

text \<open>
  Building the object: \<open>toISOString\<close> throws on an invalid begin or end time, and on a
  backend last-backup date or begin time that is given and invalid.
\<close>

definition build_row ::
  "env \<Rightarrow> jsval \<Rightarrow> jsval \<Rightarrow> jsval \<Rightarrow> jsval \<Rightarrow> string \<Rightarrow> jsval \<Rightarrow> jsval \<Rightarrow> exn + row" where
  "build_row e rid machineId backupName backupId backupDate status message =
     (let bs = js_opt (js_prop message ''BackendStatistics'') in
      case date_iso e (js_prop message ''BeginTime'') of
        None \<Rightarrow> Inl RangeError
      | Some begin_time \<Rightarrow>
     (case date_iso e (js_prop message ''EndTime'') of
        None \<Rightarrow> Inl RangeError
      | Some end_time \<Rightarrow>
     (case opt_date e (bs ''LastBackupDate'') of
        Inl x \<Rightarrow> Inl x
      | Inr last_backup_date \<Rightarrow>
     (case opt_date e (bs ''BeginTime'') of
        Inl x \<Rightarrow> Inl x
      | Inr backend_begin_time \<Rightarrow>
          Inr (row_literal e rid machineId backupName backupId backupDate status message
                 (JStr begin_time) (JStr end_time) last_backup_date backend_begin_time)))))"

text \<open>
  The body of the inner loop, for one retained log entry: the exception thrown, if any,
  with the tallies and the world as they are at that moment. \<open>continue\<close> and the normal
  end of the body both give \<open>None\<close>.
\<close>

definition process_entry ::
  "env \<Rightarrow> jsval \<Rightarrow> jsval list \<Rightarrow> nat \<Rightarrow> jsval \<Rightarrow> jsval \<Rightarrow> counters \<Rightarrow> world
     \<Rightarrow> exn option \<times> counters \<times> world" where
  "process_entry e machineId backups i backupId log_entry c w =
     (case parse_message e log_entry of
        Inl x \<Rightarrow> (Some x, c, w)
      | Inr message \<Rightarrow>
     (case js_get message ''BeginTime'' of
        Inl x \<Rightarrow> (Some x, c, w)
      | Inr beginTime \<Rightarrow>
     (case date_iso e beginTime of
        None \<Rightarrow> (Some RangeError, c, w)
      | Some backupDate \<Rightarrow>
     (let backupName = find_backup_name backups i backupId in
      if \<not> js_truthy backupName then (None, c, w)
      else
        (let isDuplicate = checkDuplicateBackup (backups_table w) machineId backupName (JStr backupDate);
             w1 = w\<lparr>trace := trace w @ [DbCheckDuplicate machineId backupName (JStr backupDate) isDuplicate]\<rparr>
         in
         if isDuplicate then (None, c\<lparr>skippedCount := skippedCount c + 1\<rparr>, w1)
         else
           (let status = map_status e message;
                rid = JStr (uuidv4 e (uuid_calls w1));
                w2 = w1\<lparr>uuid_calls := uuid_calls w1 + 1\<rparr>
            in
            case build_row e rid machineId backupName backupId backupDate status message of
              Inl x \<Rightarrow> (Some x, c, w2)
            | Inr r \<Rightarrow>
                (let w3 = w2\<lparr>trace := trace w2 @ [DbInsertBackup r]\<rparr> in
                 case insertBackup (backups_table w3) r of
                   Inl x \<Rightarrow> (Some x, c, w3)
                 | Inr table \<Rightarrow>
                     (None, c\<lparr>processedCount := processedCount c + 1\<rparr>,
                      w3\<lparr>backups_table := table\<rparr>))))))))"

text \<open>\<open>for (const log of backupMessages)\<close>: the first exception ends the loop.\<close>

fun process_entries ::
  "env \<Rightarrow> jsval \<Rightarrow> jsval list \<Rightarrow> nat \<Rightarrow> jsval \<Rightarrow> jsval list \<Rightarrow> counters \<Rightarrow> world
     \<Rightarrow> exn option \<times> counters \<times> world" where
  "process_entries e machineId backups i backupId [] c w = (None, c, w)"
| "process_entries e machineId backups i backupId (log_entry # logs) c w =
     (case process_entry e machineId backups i backupId log_entry c w of
        (Some x, c', w') \<Rightarrow> (Some x, c', w')
      | (None, c', w') \<Rightarrow> process_entries e machineId backups i backupId logs c' w')"

text \<open>
  The rest of the \<open>try\<close> block once the log body is decoded: keep the backup messages
  and process them. A body that is not an array has no \<open>filter\<close>: TypeError.
\<close>

definition process_logs ::
  "env \<Rightarrow> jsval \<Rightarrow> jsval list \<Rightarrow> nat \<Rightarrow> jsval \<Rightarrow> jsval \<Rightarrow> counters \<Rightarrow> world
     \<Rightarrow> exn option \<times> counters \<times> world" where
  "process_logs e machineId backups i backupId logs c w =
     (case logs of
        JArr entries \<Rightarrow>
          (let backupMessages = filter (is_backup_message e) entries in
           process_entries e machineId backups i backupId backupMessages c w)
      | other \<Rightarrow> (Some TypeError, c, w))"

text \<open>The \<open>try\<close> block of one job: fetch its log, then process it.\<close>

definition try_job ::
  "env \<Rightarrow> request \<Rightarrow> string \<Rightarrow> jsval \<Rightarrow> jsval \<Rightarrow> jsval list \<Rightarrow> nat \<Rightarrow> jsval \<Rightarrow> counters \<Rightarrow> world
     \<Rightarrow> exn option \<times> counters \<times> world" where
  "try_job e opts baseUrl authToken machineId backups i backupId c w =
     (case makeRequest e (log_request e opts baseUrl authToken backupId) w of
        (Inl x, w1) \<Rightarrow> (Some x, c, w1)
      | (Inr logResponse, w1) \<Rightarrow>
          if \<not> ok logResponse
          then (Some (Error (''Failed to get logs for backup '' @ js_to_string e backupId @ '': ''
                               @ statusText logResponse)), c, w1)
          else process_logs e machineId backups i backupId (json logResponse) c w1)"

text \<open>One turn of the outer loop: the \<open>catch\<close> counts the error and the loop goes on.\<close>

definition process_job ::
  "env \<Rightarrow> request \<Rightarrow> string \<Rightarrow> jsval \<Rightarrow> jsval \<Rightarrow> jsval list \<Rightarrow> nat \<Rightarrow> jsval \<Rightarrow> counters \<Rightarrow> world
     \<Rightarrow> counters \<times> world" where
  "process_job e opts baseUrl authToken machineId backups i backupId c w =
     (case try_job e opts baseUrl authToken machineId backups i backupId c w of
        (Some x, c', w') \<Rightarrow> (c'\<lparr>errorCount := errorCount c' + 1\<rparr>, w')
      | (None, c', w') \<Rightarrow> (c', w'))"

text \<open>\<open>for (const backupId of backupIds)\<close>, from position \<open>i\<close> on.\<close>

fun process_jobs ::
  "env \<Rightarrow> request \<Rightarrow> string \<Rightarrow> jsval \<Rightarrow> jsval \<Rightarrow> jsval list \<Rightarrow> nat \<Rightarrow> jsval list \<Rightarrow> counters \<Rightarrow> world
     \<Rightarrow> counters \<times> world" where
  "process_jobs e opts baseUrl authToken machineId backups i [] c w = (c, w)"
| "process_jobs e opts baseUrl authToken machineId backups i (backupId # backupIds) c w =
     (case process_job e opts baseUrl authToken machineId backups i backupId c w of
        (c', w') \<Rightarrow> process_jobs e opts baseUrl authToken machineId backups (Suc i) backupIds c' w')"

text \<open>A word between double quotes, for messages.\<close>

definition quoted :: "string \<Rightarrow> string" where
  "quoted s = CHR 0x22 # s @ [CHR 0x22]"

text \<open>The response of a counted run.\<close>

definition stats_response :: "counters \<Rightarrow> next_response" where
  "stats_response c =
     NextResponse_json
       (JObj [(''success'', JBool True),
              (''stats'', JObj [(''processed'', JNum (Finite (of_nat (processedCount c)))),
                                (''skipped'', JNum (Finite (of_nat (skippedCount c)))),
                                (''errors'', JNum (Finite (of_nat (errorCount c))))])]) 200"

text \<open>
  From the validated target on: login, system info, machine upsert, backup list, jobs.
  An exception here leaves through the outer \<open>catch\<close>.
\<close>

definition run_collection ::
  "env \<Rightarrow> request \<Rightarrow> string \<Rightarrow> jsval \<Rightarrow> world \<Rightarrow> (exn + next_response) \<times> world" where
  "run_collection e opts baseUrl password w =
     (case login e opts baseUrl password w of
        (Inl x, w1) \<Rightarrow> (Inl x, w1)
      | (Inr authToken, w1) \<Rightarrow>
     (case getSystemInfo e opts baseUrl authToken w1 of
        (Inl x, w2) \<Rightarrow> (Inl x, w2)
      | (Inr (machineId, machineName), w2) \<Rightarrow>
     (let w3 = w2\<lparr>machines_table := upsertMachine (machines_table w2) machineId machineName,
                  trace := trace w2 @ [DbUpsertMachine machineId machineName]\<rparr> in
      case listBackups e opts baseUrl authToken w3 of
        (Inl x, w4) \<Rightarrow> (Inl x, w4)
      | (Inr (backups, backupIds), w4) \<Rightarrow>
          if backupIds = []
          then (Inr (NextResponse_json (JObj [(''message'', JStr ''No backups found'')]) 200), w4)
          else (case process_jobs e opts baseUrl authToken machineId backups 0 backupIds
                       \<lparr>processedCount = 0, skippedCount = 0, errorCount = 0\<rparr> w4 of
                  (c, w5) \<Rightarrow> (Inr (stats_response c), w5)))))"

text \<open>
  The \<open>try\<close> block of the handler. The argument is the outcome of \<open>request.json()\<close>
  (\<open>None\<close>: the body is not JSON); destructuring \<open>null\<close> is a TypeError.
\<close>

definition try_POST :: "env \<Rightarrow> jsval option \<Rightarrow> world \<Rightarrow> (exn + next_response) \<times> world" where
  "try_POST e request_json w =
     (case request_json of
        None \<Rightarrow> (Inl SyntaxError, w)
      | Some b \<Rightarrow>
     (case js_get b ''hostname'' of
        Inl x \<Rightarrow> (Inl x, w)
      | Inr hostname \<Rightarrow>
     (let port = js_default (js_prop b ''port'') (JNum (Finite 8200));
          password = js_prop b ''password'';
          protocol = js_default (js_prop b ''protocol'') (JStr ''http'');
          allowSelfSigned = js_default (js_prop b ''allowSelfSigned'') (JBool False)
      in
      if \<not> js_truthy hostname
      then (Inr (NextResponse_json (JObj [(''error'', JStr ''Hostname is required'')]) 400), w)
      else if \<not> js_truthy password
      then (Inr (NextResponse_json (JObj [(''error'', JStr ''Password is required'')]) 400), w)
      else if protocol \<noteq> JStr ''http'' \<and> protocol \<noteq> JStr ''https''
      then (Inr (NextResponse_json
                   (JObj [(''error'', JStr (''Protocol must be either '' @ quoted ''http''
                                              @ '' or '' @ quoted ''https''))]) 400), w)
      else
        (let baseUrl = js_to_string e protocol @ ''://'' @ js_to_string e hostname @ '':''
                         @ js_to_string e port
         in run_collection e (requestOptions protocol allowSelfSigned) baseUrl password w))))"

text \<open>The handler: the outer \<open>catch\<close> turns an exception into a 500 with its message.\<close>

definition POST :: "env \<Rightarrow> jsval option \<Rightarrow> world \<Rightarrow> next_response \<times> world" where
  "POST e request_json w =
     (case try_POST e request_json w of
        (Inl x, w') \<Rightarrow> (NextResponse_json (JObj [(''error'', JStr (exn_message x))]) 500, w')
      | (Inr r, w') \<Rightarrow> (r, w'))"

section \<open>Notions for stating the properties\<close>

text \<open>
  The log of effects is read three ways. \<open>gated\<close>: every call of \<open>insertBackup.run\<close> comes
  immediately after a duplicate lookup on the row's own triple that returned false.
  \<open>inserted_rows\<close>: the rows handed to \<open>insertBackup.run\<close>, in order. \<open>skips\<close>: the number
  of lookups that returned true.
\<close>

fun gated :: "event list \<Rightarrow> bool" where
  "gated [] = True"
| "gated (DbInsertBackup r # evs) = False"
| "gated (DbCheckDuplicate m n d dup # DbInsertBackup r # evs) =
     (\<not> dup \<and> row_key r = (m, n, d) \<and> gated evs)"
| "gated (ev # evs) = gated evs"

fun inserted_rows :: "event list \<Rightarrow> row list" where
  "inserted_rows [] = []"
| "inserted_rows (DbInsertBackup r # evs) = r # inserted_rows evs"
| "inserted_rows (ev # evs) = inserted_rows evs"

fun skips :: "event list \<Rightarrow> nat" where
  "skips [] = 0"
| "skips (DbCheckDuplicate m n d dup # evs) = (if dup then 1 else 0) + skips evs"
| "skips (ev # evs) = skips evs"

text \<open>
  What every stretch of an invocation keeps: it only appends to the log, the log it appends
  is gated, the rows it hands to the store are exactly the rows the store gains, their
  triples are pairwise different and new to the store, \<open>processed\<close> grows by their number
  and \<open>skipped\<close> by the number of positive lookups, \<open>errors\<close> never shrinks, and at
  least one identifier is drawn per row.
\<close>

definition accounted :: "counters \<Rightarrow> world \<Rightarrow> counters \<Rightarrow> world \<Rightarrow> bool" where
  "accounted c w c' w' \<longleftrightarrow>
     (\<exists>evs. trace w' = trace w @ evs \<and> gated evs
        \<and> backups_table w' = backups_table w @ inserted_rows evs
        \<and> distinct (map row_key (inserted_rows evs))
        \<and> row_key ` set (inserted_rows evs) \<inter> row_key ` set (backups_table w) = {}
        \<and> processedCount c' = processedCount c + length (inserted_rows evs)
        \<and> skippedCount c' = skippedCount c + skips evs
        \<and> errorCount c \<le> errorCount c'
        \<and> uuid_calls w + length (inserted_rows evs) \<le> uuid_calls w')"

text \<open>The target of an invocation, as the handler derives it from the request body.\<close>

definition protocol_of :: "jsval \<Rightarrow> jsval" where
  "protocol_of b = js_default (js_prop b ''protocol'') (JStr ''http'')"

definition options_of :: "jsval \<Rightarrow> request" where
  "options_of b =
     requestOptions (protocol_of b) (js_default (js_prop b ''allowSelfSigned'') (JBool False))"

definition baseUrl_of :: "env \<Rightarrow> jsval \<Rightarrow> string" where
  "baseUrl_of e b =
     js_to_string e (protocol_of b) @ ''://'' @ js_to_string e (js_prop b ''hostname'') @ '':''
       @ js_to_string e (js_default (js_prop b ''port'') (JNum (Finite 8200)))"

definition password_of :: "jsval \<Rightarrow> jsval" where
  "password_of b = js_prop b ''password''"

text \<open>A request body that passes the three checks of the handler.\<close>

definition valid_config :: "jsval \<Rightarrow> bool" where
  "valid_config b \<longleftrightarrow>
     js_truthy (js_prop b ''hostname'') \<and> js_truthy (js_prop b ''password'')
     \<and> (protocol_of b = JStr ''http'' \<or> protocol_of b = JStr ''https'')"

text \<open>The tallies at the start of step 4, and the response to an empty job list.\<close>

definition no_counters :: counters where
  "no_counters = \<lparr>processedCount = 0, skippedCount = 0, errorCount = 0\<rparr>"

definition no_backups_response :: next_response where
  "no_backups_response = NextResponse_json (JObj [(''message'', JStr ''No backups found'')]) 200"

text \<open>The world when the job list has been requested, after a successful login and system info.\<close>

definition listed_world :: "env \<Rightarrow> request \<Rightarrow> string \<Rightarrow> jsval \<Rightarrow> jsval \<Rightarrow> jsval \<Rightarrow> jsval \<Rightarrow> world \<Rightarrow> world" where
  "listed_world e opts baseUrl password authToken machineId machineName w =
     w\<lparr>machines_table := upsertMachine (machines_table w) machineId machineName,
       trace := trace w @ [NetRequest (login_request e opts baseUrl password),
                           NetRequest (systeminfo_request e opts baseUrl authToken),
                           DbUpsertMachine machineId machineName,
                           NetRequest (backups_request e opts baseUrl authToken)]\<rparr>"




text \<open>What the second call does with an entry, given what the first call did with it.\<close>

definition replayed :: "counters \<Rightarrow> world \<Rightarrow> counters \<Rightarrow> world \<Rightarrow> counters \<Rightarrow> world \<Rightarrow> counters \<Rightarrow> world \<Rightarrow> bool" where
  "replayed c w c' w' d v d' v' \<longleftrightarrow>
     processedCount d' = processedCount d
     \<and> skippedCount d' + processedCount c + skippedCount c
           = skippedCount d + processedCount c' + skippedCount c'
     \<and> errorCount d' + errorCount c = errorCount d + errorCount c'
     \<and> backups_table v' = backups_table v
     \<and> uuid_calls v' = uuid_calls v
     \<and> machines_table v' = machines_table v"

section \<open>A remote server, for concrete runs\<close>

text \<open>
  Five Duplicati servers behind one socket function. \<open>mail.local\<close> lists one job whose
  log holds one successful backup. \<open>nas.local\<close> lists three jobs: the
  log of job 1 holds a backup that succeeded with two warnings and a compact operation,
  the log of job 2 cannot be fetched, and the log of job 3 holds one failed backup.
  \<open>lab.local\<close> lists one job whose second backup entry has an unusable begin time.
  \<open>new.local\<close> lists no jobs, and \<open>old.local\<close> drops the request for its job list.
  The texts are the JSON bodies as sent.
\<close>

definition json_string_literal :: "string \<Rightarrow> string" where
  "json_string_literal s =
     CHR 0x22 # concat (map (\<lambda>c. if c = CHR 0x22 \<or> c = CHR 0x5C then [CHR 0x5C, c] else [c]) s)
       @ [CHR 0x22]"

definition login_data :: string where
  \<open>login_data = ''{"AccessToken":"tok"}''\<close>

definition nas_systeminfo_data :: string where
  \<open>nas_systeminfo_data = ''{"MachineName":"nas","Options":[{"Name":"machine-id","DefaultValue":"m-1"}]}''\<close>

definition lab_systeminfo_data :: string where
  \<open>lab_systeminfo_data = ''{"MachineName":"lab","Options":[{"Name":"machine-id","DefaultValue":"m-2"}]}''\<close>

definition new_systeminfo_data :: string where
  \<open>new_systeminfo_data = ''{"MachineName":"new","Options":[{"Name":"machine-id","DefaultValue":"m-3"}]}''\<close>

definition old_systeminfo_data :: string where
  \<open>old_systeminfo_data = ''{"MachineName":"old","Options":[{"Name":"machine-id","DefaultValue":"m-4"}]}''\<close>

definition mail_systeminfo_data :: string where
  \<open>mail_systeminfo_data = ''{"MachineName":"mail","Options":[{"Name":"machine-id","DefaultValue":"m-5"}]}''\<close>

definition mail_backups_data :: string where
  \<open>mail_backups_data = ''[{"Backup":{"ID":"5","Name":"Mail"}}]''\<close>

definition mail_run :: string where
  \<open>mail_run = ''{"MainOperation":"Backup","ParsedResult":"Success","BeginTime":"2025-03-06T02:00:00Z","EndTime":"2025-03-06T02:10:00Z"}''\<close>

definition nas_backups_data :: string where
  \<open>nas_backups_data = ''[{"Backup":{"ID":"1","Name":"Docs"}},{"Backup":{"ID":"2","Name":"Photos"}},{"Backup":{"ID":"3","Name":"Music"}}]''\<close>

definition lab_backups_data :: string where
  \<open>lab_backups_data = ''[{"Backup":{"ID":"7","Name":"Home"}}]''\<close>

definition new_backups_data :: string where
  \<open>new_backups_data = ''[]''\<close>

definition docs_run :: string where
  \<open>docs_run = ''{"MainOperation":"Backup","ParsedResult":"Success","WarningsActualLength":2,"BeginTime":"2025-03-01T02:00:00Z","EndTime":"2025-03-01T02:05:00Z","Duration":"00:05:00"}''\<close>

definition docs_compact :: string where
  \<open>docs_compact = ''{"MainOperation":"Compact","ParsedResult":"Success","BeginTime":"2025-03-01T03:00:00Z"}''\<close>

definition music_run :: string where
  \<open>music_run = ''{"MainOperation":"Backup","ParsedResult":"Error","WarningsActualLength":0,"BeginTime":"2025-03-02T02:00:00Z","EndTime":"2025-03-02T02:01:00Z"}''\<close>

definition home_run_1 :: string where
  \<open>home_run_1 = ''{"MainOperation":"Backup","ParsedResult":"Success","BeginTime":"2025-03-03T02:00:00Z","EndTime":"2025-03-03T02:10:00Z"}''\<close>

definition home_run_bad :: string where
  \<open>home_run_bad = ''{"MainOperation":"Backup","ParsedResult":"Success","BeginTime":"yesterday","EndTime":"2025-03-04T02:10:00Z"}''\<close>

definition home_run_2 :: string where
  \<open>home_run_2 = ''{"MainOperation":"Backup","ParsedResult":"Success","BeginTime":"2025-03-05T02:00:00Z","EndTime":"2025-03-05T02:10:00Z"}''\<close>

definition log_data :: "string list \<Rightarrow> string" where
  \<open>log_data messages =
     ''['' @ concat (map (\<lambda>m. ''{"Message":'' @ json_string_literal m @ ''},'') (butlast messages))
       @ ''{"Message":'' @ json_string_literal (last messages) @ ''}]''\<close>

definition ok_response :: "string \<Rightarrow> raw_response" where
  "ok_response text = \<lparr>statusCode = Some 200, statusMessage = Some ''OK'', data = text\<rparr>"

definition demo_transport :: "request \<Rightarrow> raw_response option" where
  "demo_transport req = map_of
     [(''http://nas.local:8200/api/v1/auth/login'', ok_response login_data),
      (''http://nas.local:8200/api/v1/systeminfo'', ok_response nas_systeminfo_data),
      (''http://nas.local:8200/api/v1/backups'', ok_response nas_backups_data),
      (''http://nas.local:8200/api/v1/backup/1/log?pagesize=999'',
         ok_response (log_data [docs_run, docs_compact])),
      (''http://nas.local:8200/api/v1/backup/3/log?pagesize=999'',
         ok_response (log_data [music_run])),
      (''http://lab.local:8200/api/v1/auth/login'', ok_response login_data),
      (''http://lab.local:8200/api/v1/systeminfo'', ok_response lab_systeminfo_data),
      (''http://lab.local:8200/api/v1/backups'', ok_response lab_backups_data),
      (''http://lab.local:8200/api/v1/backup/7/log?pagesize=999'',
         ok_response (log_data [home_run_1, home_run_bad, home_run_2])),
      (''http://new.local:8200/api/v1/auth/login'', ok_response login_data),
      (''http://new.local:8200/api/v1/systeminfo'', ok_response new_systeminfo_data),
      (''http://new.local:8200/api/v1/backups'', ok_response new_backups_data),
      (''http://old.local:8200/api/v1/auth/login'', ok_response login_data),
      (''http://old.local:8200/api/v1/systeminfo'', ok_response old_systeminfo_data),
      (''http://mail.local:8200/api/v1/auth/login'', ok_response login_data),
      (''http://mail.local:8200/api/v1/systeminfo'', ok_response mail_systeminfo_data),
      (''http://mail.local:8200/api/v1/backups'', ok_response mail_backups_data),
      (''http://mail.local:8200/api/v1/backup/5/log?pagesize=999'', ok_response (log_data [mail_run]))]
     (url req)"

text \<open>What the texts decode to.\<close>

definition systeminfo_value :: "string \<Rightarrow> string \<Rightarrow> jsval" where
  "systeminfo_value name mid =
     JObj [(''MachineName'', JStr name),
           (''Options'', JArr [JObj [(''Name'', JStr ''machine-id''), (''DefaultValue'', JStr mid)]])]"

definition job_value :: "string \<Rightarrow> string \<Rightarrow> jsval" where
  "job_value jid name = JObj [(''Backup'', JObj [(''ID'', JStr jid), (''Name'', JStr name)])]"

definition nas_backups :: "jsval list" where
  "nas_backups = [job_value ''1'' ''Docs'', job_value ''2'' ''Photos'', job_value ''3'' ''Music'']"

definition mail_backups :: "jsval list" where
  "mail_backups = [job_value ''5'' ''Mail'']"

definition lab_backups :: "jsval list" where
  "lab_backups = [job_value ''7'' ''Home'']"

definition entry :: "string \<Rightarrow> jsval" where
  "entry text = JObj [(''Message'', JStr text)]"

definition docs_message :: jsval where
  "docs_message =
     JObj [(''MainOperation'', JStr ''Backup''), (''ParsedResult'', JStr ''Success''),
           (''WarningsActualLength'', JNum (Finite 2)),
           (''BeginTime'', JStr ''2025-03-01T02:00:00Z''),
           (''EndTime'', JStr ''2025-03-01T02:05:00Z''),
           (''Duration'', JStr ''00:05:00'')]"

definition compact_message :: jsval where
  "compact_message =
     JObj [(''MainOperation'', JStr ''Compact''), (''ParsedResult'', JStr ''Success''),
           (''BeginTime'', JStr ''2025-03-01T03:00:00Z'')]"

definition music_message :: jsval where
  "music_message =
     JObj [(''MainOperation'', JStr ''Backup''), (''ParsedResult'', JStr ''Error''),
           (''WarningsActualLength'', JNum (Finite 0)),
           (''BeginTime'', JStr ''2025-03-02T02:00:00Z''),
           (''EndTime'', JStr ''2025-03-02T02:01:00Z'')]"

text \<open>A successful backup with nothing but its two times.\<close>

definition home_message :: "string \<Rightarrow> string \<Rightarrow> jsval" where
  "home_message begin_time end_time =
     JObj [(''MainOperation'', JStr ''Backup''), (''ParsedResult'', JStr ''Success''),
           (''BeginTime'', JStr begin_time), (''EndTime'', JStr end_time)]"

definition demo_json_parse :: "string \<Rightarrow> jsval option" where
  "demo_json_parse = map_of
     [(login_data, JObj [(''AccessToken'', JStr ''tok'')]),
      (nas_systeminfo_data, systeminfo_value ''nas'' ''m-1''),
      (lab_systeminfo_data, systeminfo_value ''lab'' ''m-2''),
      (new_systeminfo_data, systeminfo_value ''new'' ''m-3''),
      (old_systeminfo_data, systeminfo_value ''old'' ''m-4''),
      (nas_backups_data, JArr nas_backups),
      (lab_backups_data, JArr lab_backups),
      (new_backups_data, JArr []),
      (log_data [docs_run, docs_compact], JArr [entry docs_run, entry docs_compact]),
      (log_data [music_run], JArr [entry music_run]),
      (log_data [home_run_1, home_run_bad, home_run_2],
         JArr [entry home_run_1, entry home_run_bad, entry home_run_2]),
      (docs_run, docs_message),
      (docs_compact, compact_message),
      (music_run, music_message),
      (home_run_1, home_message ''2025-03-03T02:00:00Z'' ''2025-03-03T02:10:00Z''),
      (home_run_bad, home_message ''yesterday'' ''2025-03-04T02:10:00Z''),
      (home_run_2, home_message ''2025-03-05T02:00:00Z'' ''2025-03-05T02:10:00Z''),
      (mail_systeminfo_data, systeminfo_value ''mail'' ''m-5''),
      (mail_backups_data, JArr mail_backups),
      (log_data [mail_run], JArr [entry mail_run]),
      (mail_run, home_message ''2025-03-06T02:00:00Z'' ''2025-03-06T02:10:00Z'')]"

definition demo_json_stringify :: "jsval \<Rightarrow> string" where
  \<open>demo_json_stringify v =
     (if v = JObj [(''Password'', JStr ''secret''), (''RememberMe'', JBool True)]
      then ''{"Password":"secret","RememberMe":true}'' else ''null'')\<close>

text \<open>
  ISO timestamps in UTC gain their milliseconds; \<open>null\<close> is the epoch; \<open>undefined\<close> and
  any other text are invalid dates.
\<close>

definition demo_date_iso :: "jsval \<Rightarrow> string option" where
  "demo_date_iso v =
     (case v of
        JStr s \<Rightarrow>
          (if length s = 20 \<and> s ! 4 = CHR ''-'' \<and> s ! 10 = CHR ''T'' \<and> last s = CHR ''Z''
           then Some (butlast s @ ''.000Z'') else None)
      | JNull \<Rightarrow> Some ''1970-01-01T00:00:00.000Z''
      | _ \<Rightarrow> None)"

definition demo_uuidv4 :: "nat \<Rightarrow> string" where
  "demo_uuidv4 n = ''6f1c2a9e-0000-4000-8000-00000000000'' @ show_nat n"

text \<open>
  The engine's conversions between numbers and texts, for the two fractions and the
  empty text; no other is asked for in the runs below.
\<close>

definition demo_number_text :: "rat \<Rightarrow> string" where
  "demo_number_text q = (if q = 3 / 2 then ''1.5'' else ''0.5'')"

definition demo_text_number :: "string \<Rightarrow> number option" where
  "demo_text_number =
     map_of [(''1.5'', Finite (3 / 2)), (''0.5'', Finite (1 / 2)), ([], Finite 0)]"

definition demo_env :: env where
  "demo_env = \<lparr>transport = demo_transport, json_parse = demo_json_parse,
               json_stringify = demo_json_stringify, date_iso = demo_date_iso,
               uuidv4 = demo_uuidv4, number_text = demo_number_text,
               text_number = demo_text_number\<rparr>"

definition target_body :: "string \<Rightarrow> jsval" where
  "target_body host = JObj [(''hostname'', JStr host), (''password'', JStr ''secret'')]"

definition empty_world :: world where
  "empty_world = \<lparr>machines_table = [], backups_table = [], trace = [], uuid_calls = 0\<rparr>"

text \<open>The options of every request to these servers, and the token they hand out.\<close>

definition plain_options :: request where
  "plain_options = \<lparr>url = [], http_method = ''GET'',
      headers = [(''Content-Type'', ''application/json''), (''Accept'', ''application/json'')],
      body = None, agent = None\<rparr>"

definition nas_url :: string where
  "nas_url = ''http://nas.local:8200''"

definition lab_url :: string where
  "lab_url = ''http://lab.local:8200''"

text \<open>The two rows that the first collection from \<open>nas.local\<close> stores.\<close>

definition docs_row :: row where
  "docs_row = row_literal demo_env (JStr (demo_uuidv4 0)) (JStr ''m-1'') (JStr ''Docs'') (JStr ''1'')
     ''2025-03-01T02:00:00.000Z'' (JStr ''Warning'') docs_message
     (JStr ''2025-03-01T02:00:00.000Z'') (JStr ''2025-03-01T02:05:00.000Z'') JNull JNull"

definition music_row :: row where
  "music_row = row_literal demo_env (JStr (demo_uuidv4 1)) (JStr ''m-1'') (JStr ''Music'') (JStr ''3'')
     ''2025-03-02T02:00:00.000Z'' (JStr ''Error'') music_message
     (JStr ''2025-03-02T02:00:00.000Z'') (JStr ''2025-03-02T02:01:00.000Z'') JNull JNull"

text \<open>The world after the first collection from \<open>nas.local\<close>, starting from nothing.\<close>

definition nas_world1 :: world where
  "nas_world1 =
     \<lparr>machines_table = [(JStr ''m-1'', JStr ''nas'')],
      backups_table = [docs_row, music_row],
      trace =
        [NetRequest (login_request demo_env plain_options nas_url (JStr ''secret'')),
         NetRequest (systeminfo_request demo_env plain_options nas_url (JStr ''tok'')),
         DbUpsertMachine (JStr ''m-1'') (JStr ''nas''),
         NetRequest (backups_request demo_env plain_options nas_url (JStr ''tok'')),
         NetRequest (log_request demo_env plain_options nas_url (JStr ''tok'') (JStr ''1'')),
         DbCheckDuplicate (JStr ''m-1'') (JStr ''Docs'') (JStr ''2025-03-01T02:00:00.000Z'') False,
         DbInsertBackup docs_row,
         NetRequest (log_request demo_env plain_options nas_url (JStr ''tok'') (JStr ''2'')),
         NetRequest (log_request demo_env plain_options nas_url (JStr ''tok'') (JStr ''3'')),
         DbCheckDuplicate (JStr ''m-1'') (JStr ''Music'') (JStr ''2025-03-02T02:00:00.000Z'') False,
         DbInsertBackup music_row],
      uuid_calls = 2\<rparr>"

definition mail_url :: string where
  "mail_url = ''http://mail.local:8200''"

text \<open>The row that a collection from \<open>mail.local\<close> stores, and the world after it,
  starting from nothing.\<close>

definition mail_row :: row where
  "mail_row = row_literal demo_env (JStr (demo_uuidv4 0)) (JStr ''m-5'') (JStr ''Mail'') (JStr ''5'')
     ''2025-03-06T02:00:00.000Z'' (JStr ''Success'')
     (home_message ''2025-03-06T02:00:00Z'' ''2025-03-06T02:10:00Z'')
     (JStr ''2025-03-06T02:00:00.000Z'') (JStr ''2025-03-06T02:10:00.000Z'') JNull JNull"

definition mail_world1 :: world where
  "mail_world1 =
     \<lparr>machines_table = [(JStr ''m-5'', JStr ''mail'')],
      backups_table = [mail_row],
      trace =
        [NetRequest (login_request demo_env plain_options mail_url (JStr ''secret'')),
         NetRequest (systeminfo_request demo_env plain_options mail_url (JStr ''tok'')),
         DbUpsertMachine (JStr ''m-5'') (JStr ''mail''),
         NetRequest (backups_request demo_env plain_options mail_url (JStr ''tok'')),
         NetRequest (log_request demo_env plain_options mail_url (JStr ''tok'') (JStr ''5'')),
         DbCheckDuplicate (JStr ''m-5'') (JStr ''Mail'') (JStr ''2025-03-06T02:00:00.000Z'') False,
         DbInsertBackup mail_row],
      uuid_calls = 1\<rparr>"

text \<open>The world after a second collection from \<open>mail.local\<close>.\<close>

definition mail_world2 :: world where
  "mail_world2 = snd (POST demo_env (Some (target_body ''mail.local'')) mail_world1)"


section \<open>The gate, the tallies and the store along an invocation\<close>

lemma gated_Cons_noninsert:
  "gated ys \<Longrightarrow> (\<forall>r. ev \<noteq> DbInsertBackup r) \<Longrightarrow> gated (ev # ys)"
  by (cases ys rule: gated.cases; cases ev) auto

lemma gated_append: "gated xs \<Longrightarrow> gated ys \<Longrightarrow> gated (xs @ ys)"
  by (induction xs rule: gated.induct) (auto intro: gated_Cons_noninsert)

lemma inserted_rows_append: "inserted_rows (xs @ ys) = inserted_rows xs @ inserted_rows ys"
  by (induction xs rule: inserted_rows.induct) auto

lemma skips_append: "skips (xs @ ys) = skips xs + skips ys"
  by (induction xs rule: skips.induct) auto

lemma accounted_refl: "accounted c w c w"
  unfolding accounted_def by (rule exI [of _ "[]"]) simp

lemma accounted_trans:
  assumes "accounted c w c1 w1" and "accounted c1 w1 c2 w2"
  shows "accounted c w c2 w2"
proof -
  from assms(1) obtain xs where xs:
    "trace w1 = trace w @ xs" "gated xs"
    "backups_table w1 = backups_table w @ inserted_rows xs"
    "distinct (map row_key (inserted_rows xs))"
    "row_key ` set (inserted_rows xs) \<inter> row_key ` set (backups_table w) = {}"
    "processedCount c1 = processedCount c + length (inserted_rows xs)"
    "skippedCount c1 = skippedCount c + skips xs"
    "errorCount c \<le> errorCount c1"
    "uuid_calls w + length (inserted_rows xs) \<le> uuid_calls w1"
    unfolding accounted_def by blast
  from assms(2) obtain ys where ys:
    "trace w2 = trace w1 @ ys" "gated ys"
    "backups_table w2 = backups_table w1 @ inserted_rows ys"
    "distinct (map row_key (inserted_rows ys))"
    "row_key ` set (inserted_rows ys) \<inter> row_key ` set (backups_table w1) = {}"
    "processedCount c2 = processedCount c1 + length (inserted_rows ys)"
    "skippedCount c2 = skippedCount c1 + skips ys"
    "errorCount c1 \<le> errorCount c2"
    "uuid_calls w1 + length (inserted_rows ys) \<le> uuid_calls w2"
    unfolding accounted_def by blast
  have disj: "row_key ` set (inserted_rows ys) \<inter> row_key ` set (backups_table w) = {}"
    "row_key ` set (inserted_rows xs) \<inter> row_key ` set (inserted_rows ys) = {}"
    using ys(5) unfolding xs(3) by auto
  show ?thesis
    unfolding accounted_def
  proof (intro exI [of _ "xs @ ys"] conjI)
    show "distinct (map row_key (inserted_rows (xs @ ys)))"
      using xs(4) ys(4) disj(2) by (simp add: inserted_rows_append)
    show "row_key ` set (inserted_rows (xs @ ys)) \<inter> row_key ` set (backups_table w) = {}"
      using xs(5) disj(1) by (auto simp: inserted_rows_append)
  qed (use xs ys in \<open>simp_all add: gated_append inserted_rows_append skips_append\<close>)
qed

lemma checkDuplicateBackup_iff:
  "checkDuplicateBackup table m n d \<longleftrightarrow> (m, n, d) \<in> row_key ` set table"
  by (force simp: checkDuplicateBackup_def list_ex_iff)

lemma insertBackup_fresh:
  "\<not> checkDuplicateBackup table m n d \<Longrightarrow> row_key r = (m, n, d)
   \<Longrightarrow> insertBackup table r = Inr (table @ [r])"
  by (simp add: insertBackup_def)

lemma row_literal_key:
  "row_key (row_literal e rid machineId backupName backupId backupDate st message bt et lb bb)
     = (machineId, backupName, JStr backupDate)"
  by (simp add: row_literal_def row_key_def row_field_def Let_def)

lemma row_literal_status:
  "row_field (row_literal e rid machineId backupName backupId backupDate st message bt et lb bb)
     ''status'' = st"
  by (simp add: row_literal_def row_field_def Let_def)

lemma build_row_Inr:
  "build_row e rid machineId backupName backupId backupDate st message = Inr r
   \<Longrightarrow> \<exists>bt et lb bb. r = row_literal e rid machineId backupName backupId backupDate st message bt et lb bb"
  unfolding build_row_def Let_def
  by (auto split: option.splits sum.splits)


lemma process_entry_cases:
  assumes "process_entry e machineId backups i backupId log_entry c w = (x, c', w')"
  shows "(c' = c \<and> w' = w)
    \<or> (\<exists>n d. x = None \<and> checkDuplicateBackup (backups_table w) machineId n d
          \<and> c' = c\<lparr>skippedCount := skippedCount c + 1\<rparr>
          \<and> w' = w\<lparr>trace := trace w @ [DbCheckDuplicate machineId n d True]\<rparr>)
    \<or> (\<exists>n d y. x = Some y \<and> \<not> checkDuplicateBackup (backups_table w) machineId n d
          \<and> c' = c
          \<and> w' = w\<lparr>trace := trace w @ [DbCheckDuplicate machineId n d False],
                    uuid_calls := uuid_calls w + 1\<rparr>)
    \<or> (\<exists>n d r. x = None \<and> \<not> checkDuplicateBackup (backups_table w) machineId n d
          \<and> row_key r = (machineId, n, d)
          \<and> c' = c\<lparr>processedCount := processedCount c + 1\<rparr>
          \<and> w' = w\<lparr>trace := trace w @ [DbCheckDuplicate machineId n d False, DbInsertBackup r],
                    uuid_calls := uuid_calls w + 1,
                    backups_table := backups_table w @ [r]\<rparr>)"
proof (cases "parse_message e log_entry")
  case (Inl a)
  with assms show ?thesis by (simp add: process_entry_def)
next
  case (Inr message)
  note msg = this
  show ?thesis
  proof (cases "js_get message ''BeginTime''")
    case (Inl a)
    with assms msg show ?thesis by (simp add: process_entry_def)
  next
    case (Inr beginTime)
    note bt = this
    show ?thesis
    proof (cases "date_iso e beginTime")
      case None
      with assms msg bt show ?thesis by (simp add: process_entry_def)
    next
      case (Some backupDate)
      note d = this
      define n where "n = find_backup_name backups i backupId"
      show ?thesis
      proof (cases "js_truthy n")
        case False
        with assms msg bt d show ?thesis by (simp add: process_entry_def n_def)
      next
        case True
        note nm = this
        show ?thesis
        proof (cases "checkDuplicateBackup (backups_table w) machineId n (JStr backupDate)")
          case True
          with assms msg bt d nm have "x = None \<and> c' = c\<lparr>skippedCount := skippedCount c + 1\<rparr>
            \<and> w' = w\<lparr>trace := trace w @ [DbCheckDuplicate machineId n (JStr backupDate) True]\<rparr>"
            by (auto simp add: process_entry_def n_def [symmetric])
          with True show ?thesis by blast
        next
          case False
          note nodup = this
          show ?thesis
          proof (cases "build_row e (JStr (uuidv4 e (uuid_calls w))) machineId n backupId
                          backupDate (map_status e message) message")
            case (Inl y)
            with assms msg bt d nm nodup have "x = Some y \<and> c' = c
              \<and> w' = w\<lparr>trace := trace w @ [DbCheckDuplicate machineId n (JStr backupDate) False],
                    uuid_calls := uuid_calls w + 1\<rparr>"
              by (auto simp add: process_entry_def n_def [symmetric] Let_def)
            with nodup show ?thesis by blast
          next
            case (Inr r)
            then have key: "row_key r = (machineId, n, JStr backupDate)"
              by (auto dest!: build_row_Inr simp: row_literal_key)
            have ins: "insertBackup (backups_table w) r = Inr (backups_table w @ [r])"
              using nodup key by (rule insertBackup_fresh)
            from assms msg bt d nm nodup Inr ins
            have "x = None \<and> c' = c\<lparr>processedCount := processedCount c + 1\<rparr>
              \<and> w' = w\<lparr>trace := trace w @ [DbCheckDuplicate machineId n (JStr backupDate) False,
                                             DbInsertBackup r],
                    uuid_calls := uuid_calls w + 1,
                    backups_table := backups_table w @ [r]\<rparr>"
              by (auto simp add: process_entry_def n_def [symmetric] Let_def)
            with nodup key show ?thesis by blast
          qed
        qed
      qed
    qed
  qed
qed

lemma process_entry_accounted:
  assumes "process_entry e machineId backups i backupId log_entry c w = (x, c', w')"
  shows "accounted c w c' w'"
  using process_entry_cases [OF assms]
proof (elim disjE exE conjE)
  assume "c' = c" "w' = w"
  then show ?thesis by (simp add: accounted_refl)
next
  fix n d
  assume "c' = c\<lparr>skippedCount := skippedCount c + 1\<rparr>"
    "w' = w\<lparr>trace := trace w @ [DbCheckDuplicate machineId n d True]\<rparr>"
  then show ?thesis
    unfolding accounted_def by (intro exI [of _ "[DbCheckDuplicate machineId n d True]"]) simp
next
  fix n d y
  assume "c' = c"
    "w' = w\<lparr>trace := trace w @ [DbCheckDuplicate machineId n d False],
              uuid_calls := uuid_calls w + 1\<rparr>"
  then show ?thesis
    unfolding accounted_def by (intro exI [of _ "[DbCheckDuplicate machineId n d False]"]) simp
next
  fix n d r
  assume "\<not> checkDuplicateBackup (backups_table w) machineId n d"
    "row_key r = (machineId, n, d)"
    "c' = c\<lparr>processedCount := processedCount c + 1\<rparr>"
    "w' = w\<lparr>trace := trace w @ [DbCheckDuplicate machineId n d False, DbInsertBackup r],
              uuid_calls := uuid_calls w + 1,
              backups_table := backups_table w @ [r]\<rparr>"
  then show ?thesis
    unfolding accounted_def
    by (intro exI [of _ "[DbCheckDuplicate machineId n d False, DbInsertBackup r]"])
       (simp add: checkDuplicateBackup_iff)
qed

lemma process_entries_accounted:
  "process_entries e machineId backups i backupId logs c w = (x, c', w') \<Longrightarrow> accounted c w c' w'"
proof (induction logs arbitrary: c w)
  case Nil
  then show ?case by (simp add: accounted_refl)
next
  case (Cons log_entry logs)
  obtain x1 c1 w1 where st: "process_entry e machineId backups i backupId log_entry c w = (x1, c1, w1)"
    by (cases "process_entry e machineId backups i backupId log_entry c w") auto
  have a1: "accounted c w c1 w1" using st by (rule process_entry_accounted)
  show ?case
  proof (cases x1)
    case None
    with Cons.prems st have "process_entries e machineId backups i backupId logs c1 w1 = (x, c', w')"
      by simp
    then have "accounted c1 w1 c' w'" by (rule Cons.IH)
    with a1 show ?thesis by (rule accounted_trans)
  next
    case (Some a)
    with Cons.prems st have "c' = c1" "w' = w1" by simp_all
    with a1 show ?thesis by simp
  qed
qed

lemma accounted_event:
  "(\<forall>r. ev \<noteq> DbInsertBackup r) \<Longrightarrow> (\<forall>m n d. ev \<noteq> DbCheckDuplicate m n d True)
   \<Longrightarrow> accounted c w c (w\<lparr>trace := trace w @ [ev]\<rparr>)"
  unfolding accounted_def by (intro exI [of _ "[ev]"]) (cases ev; auto)

lemma accounted_request: "accounted c w c (w\<lparr>trace := trace w @ [NetRequest req]\<rparr>)"
  by (simp add: accounted_event)

lemma accounted_error: "accounted c w (c\<lparr>errorCount := errorCount c + 1\<rparr>) w"
  unfolding accounted_def by (rule exI [of _ "[]"]) simp

lemma process_logs_accounted:
  "process_logs e machineId backups i backupId logs c w = (x, c', w') \<Longrightarrow> accounted c w c' w'"
  by (cases logs) (auto simp: process_logs_def accounted_refl dest: process_entries_accounted)

lemma try_job_accounted:
  assumes "try_job e opts baseUrl authToken machineId backups i backupId c w = (x, c', w')"
  shows "accounted c w c' w'"
proof -
  let ?req = "log_request e opts baseUrl authToken backupId"
  let ?w1 = "w\<lparr>trace := trace w @ [NetRequest ?req]\<rparr>"
  have a1: "accounted c w c ?w1" by (rule accounted_request)
  have mk: "makeRequest e ?req w = (respond e ?req, ?w1)" by (simp add: makeRequest_def)
  show ?thesis
  proof (cases "respond e ?req")
    case (Inl a)
    with assms mk have "c' = c" "w' = ?w1" by (simp_all add: try_job_def)
    with a1 show ?thesis by simp
  next
    case (Inr r)
    show ?thesis
    proof (cases "ok r")
      case False
      with assms mk Inr have "c' = c" "w' = ?w1" by (simp_all add: try_job_def)
      with a1 show ?thesis by simp
    next
      case True
      with assms mk Inr have "process_logs e machineId backups i backupId (json r) c ?w1 = (x, c', w')"
        by (simp add: try_job_def)
      then have "accounted c ?w1 c' w'" by (rule process_logs_accounted)
      with a1 show ?thesis by (rule accounted_trans)
    qed
  qed
qed

lemma process_job_accounted:
  assumes "process_job e opts baseUrl authToken machineId backups i backupId c w = (c', w')"
  shows "accounted c w c' w'"
proof -
  obtain x c1 w1 where tj: "try_job e opts baseUrl authToken machineId backups i backupId c w = (x, c1, w1)"
    by (cases "try_job e opts baseUrl authToken machineId backups i backupId c w") auto
  then have a1: "accounted c w c1 w1" by (rule try_job_accounted)
  show ?thesis
  proof (cases x)
    case None
    with assms tj have "c' = c1" "w' = w1" by (simp_all add: process_job_def)
    with a1 show ?thesis by simp
  next
    case (Some a)
    with assms tj have "c' = c1\<lparr>errorCount := errorCount c1 + 1\<rparr>" "w' = w1"
      by (simp_all add: process_job_def)
    with a1 accounted_error [of c1 w1] show ?thesis by (auto intro: accounted_trans)
  qed
qed

lemma process_jobs_accounted:
  "process_jobs e opts baseUrl authToken machineId backups i backupIds c w = (c', w')
   \<Longrightarrow> accounted c w c' w'"
proof (induction backupIds arbitrary: i c w)
  case Nil
  then show ?case by (simp add: accounted_refl)
next
  case (Cons backupId backupIds)
  obtain c1 w1 where pj: "process_job e opts baseUrl authToken machineId backups i backupId c w = (c1, w1)"
    by (cases "process_job e opts baseUrl authToken machineId backups i backupId c w") auto
  then have a1: "accounted c w c1 w1" by (rule process_job_accounted)
  from Cons.prems pj
  have "process_jobs e opts baseUrl authToken machineId backups (Suc i) backupIds c1 w1 = (c', w')"
    by simp
  then have "accounted c1 w1 c' w'" by (rule Cons.IH)
  with a1 show ?case by (rule accounted_trans)
qed

text \<open>The three steps before the jobs: each issues one request and touches nothing else.\<close>

lemma login_world:
  "snd (login e opts baseUrl password w)
     = w\<lparr>trace := trace w @ [NetRequest (login_request e opts baseUrl password)]\<rparr>"
  by (simp add: login_def makeRequest_def split: sum.splits)

lemma login_fst:
  "fst (login e opts baseUrl password w) = fst (login e opts baseUrl password w0)"
  by (simp add: login_def makeRequest_def split: sum.splits)

lemma getSystemInfo_world:
  "snd (getSystemInfo e opts baseUrl authToken w)
     = w\<lparr>trace := trace w @ [NetRequest (systeminfo_request e opts baseUrl authToken)]\<rparr>"
  by (simp add: getSystemInfo_def makeRequest_def Let_def split: sum.splits)

lemma getSystemInfo_fst:
  "fst (getSystemInfo e opts baseUrl authToken w) = fst (getSystemInfo e opts baseUrl authToken w0)"
  by (simp add: getSystemInfo_def makeRequest_def Let_def split: sum.splits)

lemma listBackups_world:
  "snd (listBackups e opts baseUrl authToken w)
     = w\<lparr>trace := trace w @ [NetRequest (backups_request e opts baseUrl authToken)]\<rparr>"
  by (simp add: listBackups_def makeRequest_def split: sum.splits jsval.splits)

lemma listBackups_fst:
  "fst (listBackups e opts baseUrl authToken w) = fst (listBackups e opts baseUrl authToken w0)"
  by (simp add: listBackups_def makeRequest_def split: sum.splits jsval.splits)

lemma try_POST_valid:
  assumes "valid_config b"
  shows "try_POST e (Some b) w = run_collection e (options_of b) (baseUrl_of e b) (password_of b) w"
proof -
  from assms have "js_prop b ''hostname'' \<noteq> JUndefined" by (auto simp: valid_config_def)
  then have "js_get b ''hostname'' = Inr (js_prop b ''hostname'')" by (cases b) auto
  with assms show ?thesis
    by (auto simp: try_POST_def valid_config_def Let_def options_of_def baseUrl_of_def
          password_of_def protocol_of_def)
qed

lemma js_get_Inr: "js_get v name = Inr x \<Longrightarrow> x = js_prop v name"
  by (cases v) auto

lemma try_POST_invalid:
  assumes "\<not> valid_config b"
  shows "snd (try_POST e (Some b) w) = w"
    and "\<forall>r. fst (try_POST e (Some b) w) = Inr r \<longrightarrow> (\<exists>msg. r = NextResponse_json (JObj [(''error'', JStr msg)]) 400)"
  using assms
  by (auto simp: try_POST_def valid_config_def Let_def protocol_of_def split: sum.splits
        dest!: js_get_Inr)

lemma stats_response_inject:
  "stats_response c = stats_response c' \<Longrightarrow>
     processedCount c = processedCount c' \<and> skippedCount c = skippedCount c'
     \<and> errorCount c = errorCount c'"
  by (simp add: stats_response_def)

lemma stats_response_neq [simp]:
  "no_backups_response \<noteq> stats_response c"
  "NextResponse_json (JObj [(''error'', v)]) n \<noteq> stats_response c"
  by (simp_all add: stats_response_def no_backups_response_def)

lemma run_collection_login_fail:
  assumes "fst (login e opts baseUrl password w) = Inl x"
  shows "run_collection e opts baseUrl password w
     = (Inl x, w\<lparr>trace := trace w @ [NetRequest (login_request e opts baseUrl password)]\<rparr>)"
proof -
  have "login e opts baseUrl password w
     = (Inl x, w\<lparr>trace := trace w @ [NetRequest (login_request e opts baseUrl password)]\<rparr>)"
    using assms login_world [of e opts baseUrl password w] by (simp add: prod_eq_iff)
  then show ?thesis by (simp add: run_collection_def)
qed

lemma run_collection_systeminfo_fail:
  assumes "fst (login e opts baseUrl password w) = Inr authToken"
    and "fst (getSystemInfo e opts baseUrl authToken w) = Inl x"
  shows "run_collection e opts baseUrl password w
     = (Inl x, w\<lparr>trace := trace w @ [NetRequest (login_request e opts baseUrl password),
                                      NetRequest (systeminfo_request e opts baseUrl authToken)]\<rparr>)"
proof -
  let ?w1 = "w\<lparr>trace := trace w @ [NetRequest (login_request e opts baseUrl password)]\<rparr>"
  have l: "login e opts baseUrl password w = (Inr authToken, ?w1)"
    using assms(1) login_world [of e opts baseUrl password w] by (simp add: prod_eq_iff)
  have "fst (getSystemInfo e opts baseUrl authToken ?w1) = Inl x"
    using assms(2) getSystemInfo_fst [of e opts baseUrl authToken ?w1 w] by simp
  then have "getSystemInfo e opts baseUrl authToken ?w1
     = (Inl x, ?w1\<lparr>trace := trace ?w1 @ [NetRequest (systeminfo_request e opts baseUrl authToken)]\<rparr>)"
    using getSystemInfo_world [of e opts baseUrl authToken ?w1] by (simp add: prod_eq_iff)
  with l show ?thesis by (simp add: run_collection_def)
qed

lemma run_collection_listed:
  assumes "fst (login e opts baseUrl password w) = Inr authToken"
    and "fst (getSystemInfo e opts baseUrl authToken w) = Inr (machineId, machineName)"
  shows "run_collection e opts baseUrl password w =
     (let w4 = listed_world e opts baseUrl password authToken machineId machineName w in
      case fst (listBackups e opts baseUrl authToken w) of
        Inl x \<Rightarrow> (Inl x, w4)
      | Inr (backups, backupIds) \<Rightarrow>
          if backupIds = [] then (Inr no_backups_response, w4)
          else (case process_jobs e opts baseUrl authToken machineId backups 0 backupIds
                       no_counters w4 of
                  (c, w5) \<Rightarrow> (Inr (stats_response c), w5)))"
proof -
  let ?w1 = "w\<lparr>trace := trace w @ [NetRequest (login_request e opts baseUrl password)]\<rparr>"
  let ?w2 = "?w1\<lparr>trace := trace ?w1 @ [NetRequest (systeminfo_request e opts baseUrl authToken)]\<rparr>"
  let ?w3 = "?w2\<lparr>machines_table := upsertMachine (machines_table ?w2) machineId machineName,
                 trace := trace ?w2 @ [DbUpsertMachine machineId machineName]\<rparr>"
  let ?w4 = "?w3\<lparr>trace := trace ?w3 @ [NetRequest (backups_request e opts baseUrl authToken)]\<rparr>"
  have l: "login e opts baseUrl password w = (Inr authToken, ?w1)"
    using assms(1) login_world [of e opts baseUrl password w] by (simp add: prod_eq_iff)
  have "fst (getSystemInfo e opts baseUrl authToken ?w1) = Inr (machineId, machineName)"
    using assms(2) getSystemInfo_fst [of e opts baseUrl authToken ?w1 w] by simp
  then have s: "getSystemInfo e opts baseUrl authToken ?w1 = (Inr (machineId, machineName), ?w2)"
    using getSystemInfo_world [of e opts baseUrl authToken ?w1] by (simp add: prod_eq_iff)
  have b: "listBackups e opts baseUrl authToken ?w3
     = (fst (listBackups e opts baseUrl authToken w), ?w4)"
    using listBackups_world [of e opts baseUrl authToken ?w3]
      listBackups_fst [of e opts baseUrl authToken ?w3 w] by (simp add: prod_eq_iff)
  have w4: "?w4 = listed_world e opts baseUrl password authToken machineId machineName w"
    by (simp add: listed_world_def)
  show ?thesis
    unfolding run_collection_def l s Let_def prod.case sum.case b w4 [symmetric]
    by (simp add: no_backups_response_def no_counters_def split: sum.splits prod.splits)
qed

lemma accounted_listed:
  "accounted c w c (listed_world e opts baseUrl password authToken machineId machineName w)"
  unfolding accounted_def listed_world_def
  by (rule exI [of _ "[NetRequest (login_request e opts baseUrl password),
                           NetRequest (systeminfo_request e opts baseUrl authToken),
                           DbUpsertMachine machineId machineName,
                           NetRequest (backups_request e opts baseUrl authToken)]"]) simp

lemma run_collection_accounted:
  assumes "run_collection e opts baseUrl password w = (res, w')"
  shows "\<exists>c'. accounted no_counters w c' w'
     \<and> (\<forall>c. res = Inr (stats_response c) \<longrightarrow>
           processedCount c = processedCount c' \<and> skippedCount c = skippedCount c')"
proof (cases "fst (login e opts baseUrl password w)")
  case (Inl x)
  from run_collection_login_fail [OF this] assms
  have "res = Inl x" "w' = w\<lparr>trace := trace w @ [NetRequest (login_request e opts baseUrl password)]\<rparr>"
    by simp_all
  then show ?thesis by (auto intro!: exI [of _ no_counters] accounted_request)
next
  case (Inr authToken)
  note l = this
  show ?thesis
  proof (cases "fst (getSystemInfo e opts baseUrl authToken w)")
    case (Inl x)
    from run_collection_systeminfo_fail [OF l this] assms
    have "res = Inl x" "w' = w\<lparr>trace := trace w @ [NetRequest (login_request e opts baseUrl password),
                                      NetRequest (systeminfo_request e opts baseUrl authToken)]\<rparr>"
      by simp_all
    moreover have "accounted no_counters w no_counters
       (w\<lparr>trace := trace w @ [NetRequest (login_request e opts baseUrl password),
                                      NetRequest (systeminfo_request e opts baseUrl authToken)]\<rparr>)"
      unfolding accounted_def
      by (rule exI [of _ "[NetRequest (login_request e opts baseUrl password),
                                      NetRequest (systeminfo_request e opts baseUrl authToken)]"]) simp
    ultimately show ?thesis by auto
  next
    case (Inr mm)
    obtain machineId machineName where mm: "mm = (machineId, machineName)" by (cases mm)
    let ?w4 = "listed_world e opts baseUrl password authToken machineId machineName w"
    note rc = run_collection_listed [OF l Inr [unfolded mm]]
    have a4: "accounted no_counters w no_counters ?w4" by (rule accounted_listed)
    show ?thesis
    proof (cases "fst (listBackups e opts baseUrl authToken w)")
      case (Inl x)
      with rc assms have "res = Inl x" "w' = ?w4" by (simp_all add: Let_def)
      with a4 show ?thesis by auto
    next
      case (Inr bb)
      obtain backups backupIds where bb: "bb = (backups, backupIds)" by (cases bb)
      show ?thesis
      proof (cases "backupIds = []")
        case True
        with rc assms Inr bb have "res = Inr no_backups_response" "w' = ?w4" by (simp_all add: Let_def)
        with a4 show ?thesis by auto
      next
        case False
        obtain c5 w5 where pj: "process_jobs e opts baseUrl authToken machineId backups 0 backupIds
                       no_counters ?w4 = (c5, w5)"
          by (cases "process_jobs e opts baseUrl authToken machineId backups 0 backupIds
                       no_counters ?w4") auto
        with rc assms Inr bb False have r: "res = Inr (stats_response c5)" "w' = w5"
          by (simp_all add: Let_def)
        from pj have "accounted no_counters ?w4 c5 w5" by (rule process_jobs_accounted)
        with a4 have "accounted no_counters w c5 w5" by (rule accounted_trans)
        with r show ?thesis by (intro exI [of _ c5]) (auto dest!: stats_response_inject)
      qed
    qed
  qed
qed

lemma POST_eq:
  "POST e rq w =
     (case fst (try_POST e rq w) of
        Inl x \<Rightarrow> NextResponse_json (JObj [(''error'', JStr (exn_message x))]) 500
      | Inr r \<Rightarrow> r,
      snd (try_POST e rq w))"
  by (simp add: POST_def split: prod.splits sum.splits)

lemma POST_valid:
  assumes "valid_config b"
    and "run_collection e (options_of b) (baseUrl_of e b) (password_of b) w = (res, w')"
  shows "POST e (Some b) w =
     (case res of
        Inl x \<Rightarrow> NextResponse_json (JObj [(''error'', JStr (exn_message x))]) 500
      | Inr r \<Rightarrow> r, w')"
  using assms by (simp add: POST_def try_POST_valid split: sum.splits)

lemma process_entry_gate:
  assumes "parse_message e log_entry = Inr message"
    and "js_get message ''BeginTime'' = Inr beginTime"
    and "date_iso e beginTime = Some backupDate"
    and "js_truthy (find_backup_name backups i backupId)"
  shows "process_entry e machineId backups i backupId log_entry c w =
     (let n = find_backup_name backups i backupId;
          ck = (\<lambda>dup. DbCheckDuplicate machineId n (JStr backupDate) dup) in
      if checkDuplicateBackup (backups_table w) machineId n (JStr backupDate)
      then (None, c\<lparr>skippedCount := skippedCount c + 1\<rparr>, w\<lparr>trace := trace w @ [ck True]\<rparr>)
      else (case build_row e (JStr (uuidv4 e (uuid_calls w))) machineId n backupId backupDate
                   (map_status e message) message of
              Inl y \<Rightarrow> (Some y, c, w\<lparr>trace := trace w @ [ck False],
                                     uuid_calls := uuid_calls w + 1\<rparr>)
            | Inr r \<Rightarrow> (None, c\<lparr>processedCount := processedCount c + 1\<rparr>,
                        w\<lparr>trace := trace w @ [ck False, DbInsertBackup r],
                          uuid_calls := uuid_calls w + 1,
                          backups_table := backups_table w @ [r]\<rparr>)))"
proof (cases "checkDuplicateBackup (backups_table w) machineId (find_backup_name backups i backupId)
                (JStr backupDate)")
  case True
  with assms show ?thesis by (simp add: process_entry_def Let_def)
next
  case False
  note nodup = this
  show ?thesis
  proof (cases "build_row e (JStr (uuidv4 e (uuid_calls w))) machineId
                  (find_backup_name backups i backupId) backupId backupDate
                  (map_status e message) message")
    case (Inl y)
    with assms nodup show ?thesis by (simp add: process_entry_def Let_def)
  next
    case (Inr r)
    then have key: "row_key r = (machineId, find_backup_name backups i backupId, JStr backupDate)"
      by (auto dest!: build_row_Inr simp: row_literal_key)
    have ins: "insertBackup (backups_table w) r = Inr (backups_table w @ [r])"
      using nodup key by (rule insertBackup_fresh)
    from assms nodup Inr ins show ?thesis by (simp add: process_entry_def Let_def)
  qed
qed

text \<open>Before the gate: the entry throws, or the job has no name and the entry is passed over.\<close>

lemma process_entry_early:
  assumes "(\<exists>y. parse_message e log_entry = Inl y)
    \<or> (\<exists>message y. parse_message e log_entry = Inr message \<and> js_get message ''BeginTime'' = Inl y)
    \<or> (\<exists>message beginTime. parse_message e log_entry = Inr message
          \<and> js_get message ''BeginTime'' = Inr beginTime
          \<and> (date_iso e beginTime = None \<or> \<not> js_truthy (find_backup_name backups i backupId)))"
  shows "snd (process_entry e machineId backups i backupId log_entry c w) = (c, w)"
  using assms by (auto simp: process_entry_def Let_def split: option.splits)

lemma process_entry_machines:
  assumes "process_entry e machineId backups i backupId log_entry c w = (x, c', w')"
  shows "machines_table w' = machines_table w"
  using process_entry_cases [OF assms] by (elim disjE exE conjE) simp_all

lemma process_entries_machines:
  "process_entries e machineId backups i backupId logs c w = (x, c', w')
   \<Longrightarrow> machines_table w' = machines_table w"
proof (induction logs arbitrary: c w)
  case Nil
  then show ?case by simp
next
  case (Cons log_entry logs)
  obtain x1 c1 w1 where st: "process_entry e machineId backups i backupId log_entry c w = (x1, c1, w1)"
    by (cases "process_entry e machineId backups i backupId log_entry c w") auto
  have m1: "machines_table w1 = machines_table w" using st by (rule process_entry_machines)
  show ?case
  proof (cases x1)
    case None
    with Cons.prems st have "process_entries e machineId backups i backupId logs c1 w1 = (x, c', w')"
      by simp
    then have "machines_table w' = machines_table w1" by (rule Cons.IH)
    with m1 show ?thesis by simp
  next
    case (Some a)
    with Cons.prems st have "w' = w1" by simp
    with m1 show ?thesis by simp
  qed
qed

lemma try_job_machines:
  assumes "try_job e opts baseUrl authToken machineId backups i backupId c w = (x, c', w')"
  shows "machines_table w' = machines_table w"
proof -
  let ?req = "log_request e opts baseUrl authToken backupId"
  let ?w1 = "w\<lparr>trace := trace w @ [NetRequest ?req]\<rparr>"
  have mk: "makeRequest e ?req w = (respond e ?req, ?w1)" by (simp add: makeRequest_def)
  show ?thesis
  proof (cases "respond e ?req")
    case (Inl a)
    with assms mk show ?thesis by (auto simp: try_job_def)
  next
    case (Inr r)
    show ?thesis
    proof (cases "ok r")
      case False
      with assms mk Inr show ?thesis by (auto simp: try_job_def)
    next
      case True
      with assms mk Inr have pl: "process_logs e machineId backups i backupId (json r) c ?w1 = (x, c', w')"
        by (simp add: try_job_def)
      show ?thesis
      proof (cases "json r")
        case (JArr entries)
        with pl have "machines_table w' = machines_table ?w1"
          by (auto simp: process_logs_def dest: process_entries_machines)
        then show ?thesis by simp
      qed (use pl in \<open>auto simp: process_logs_def\<close>)
    qed
  qed
qed

lemma process_jobs_machines:
  "process_jobs e opts baseUrl authToken machineId backups i backupIds c w = (c', w')
   \<Longrightarrow> machines_table w' = machines_table w"
proof (induction backupIds arbitrary: i c w)
  case Nil
  then show ?case by simp
next
  case (Cons backupId backupIds)
  obtain x c1 w1 where tj: "try_job e opts baseUrl authToken machineId backups i backupId c w = (x, c1, w1)"
    by (cases "try_job e opts baseUrl authToken machineId backups i backupId c w") auto
  then have m1: "machines_table w1 = machines_table w" by (rule try_job_machines)
  from tj obtain c2 where pj: "process_job e opts baseUrl authToken machineId backups i backupId c w = (c2, w1)"
    by (cases x) (simp_all add: process_job_def)
  with Cons.prems
  have "process_jobs e opts baseUrl authToken machineId backups (Suc i) backupIds c2 w1 = (c', w')"
    by simp
  then have "machines_table w' = machines_table w1" by (rule Cons.IH)
  with m1 show ?case by simp
qed

lemma upsertMachine_member: "(mid, name) \<in> set (upsertMachine table mid name)"
  by (force simp: upsertMachine_def)

lemma listBackups_empty:
  assumes "respond e (backups_request e opts baseUrl authToken) = Inr r" and "ok r" and "json r = JArr []"
  shows "fst (listBackups e opts baseUrl authToken w) = Inr ([], [])"
  using assms by (simp add: listBackups_def makeRequest_def)

lemma filter_noise:
  "\<not> is_backup_message e log_entry \<Longrightarrow>
     filter (is_backup_message e) (xs @ log_entry # ys) = filter (is_backup_message e) (xs @ ys)"
  by simp


lemma process_entry_errorCount:
  assumes "process_entry e machineId backups i backupId log_entry c w = (x, c', w')"
  shows "errorCount c' = errorCount c"
  using process_entry_cases [OF assms] by (elim disjE exE conjE) simp_all

lemma process_entries_errorCount:
  "process_entries e machineId backups i backupId logs c w = (x, c', w')
   \<Longrightarrow> errorCount c' = errorCount c"
proof (induction logs arbitrary: c w)
  case Nil
  then show ?case by simp
next
  case (Cons log_entry logs)
  obtain x1 c1 w1 where st: "process_entry e machineId backups i backupId log_entry c w = (x1, c1, w1)"
    by (cases "process_entry e machineId backups i backupId log_entry c w") auto
  have m1: "errorCount c1 = errorCount c" using st by (rule process_entry_errorCount)
  show ?case
  proof (cases x1)
    case None
    with Cons.prems st have "process_entries e machineId backups i backupId logs c1 w1 = (x, c', w')"
      by simp
    then have "errorCount c' = errorCount c1" by (rule Cons.IH)
    with m1 show ?thesis by simp
  next
    case (Some a)
    with Cons.prems st have "c' = c1" by simp
    with m1 show ?thesis by simp
  qed
qed


lemma try_job_fetched:
  assumes "respond e (log_request e opts baseUrl authToken backupId) = Inr r"
    and "ok r" and "json r = JArr logs"
  shows "try_job e opts baseUrl authToken machineId backups i backupId c w =
     process_entries e machineId backups i backupId (filter (is_backup_message e) logs) c
       (w\<lparr>trace := trace w @ [NetRequest (log_request e opts baseUrl authToken backupId)]\<rparr>)"
  using assms by (simp add: try_job_def makeRequest_def process_logs_def)

lemma try_job_fetch_failed:
  assumes "\<forall>r. respond e (log_request e opts baseUrl authToken backupId) = Inr r \<longrightarrow> \<not> ok r"
  shows "\<exists>x. try_job e opts baseUrl authToken machineId backups i backupId c w =
     (Some x, c, w\<lparr>trace := trace w @ [NetRequest (log_request e opts baseUrl authToken backupId)]\<rparr>)"
  using assms by (cases "respond e (log_request e opts baseUrl authToken backupId)")
    (auto simp: try_job_def makeRequest_def)



lemma accounted_keys:
  "accounted c w c' w' \<Longrightarrow> row_key ` set (backups_table w) \<subseteq> row_key ` set (backups_table w')"
  unfolding accounted_def by (elim exE conjE) auto




lemma process_job_fetch_failed:
  assumes "\<forall>r. respond e (log_request e opts baseUrl authToken backupId) = Inr r \<longrightarrow> \<not> ok r"
  shows "process_job e opts baseUrl authToken machineId backups i backupId c w =
     (c\<lparr>errorCount := errorCount c + 1\<rparr>,
      w\<lparr>trace := trace w @ [NetRequest (log_request e opts baseUrl authToken backupId)]\<rparr>)"
  using try_job_fetch_failed [OF assms, of machineId backups i c w]
  by (auto simp: process_job_def)

lemma accounted_slack:
  "accounted c w c' w' \<Longrightarrow> uuid_calls w + processedCount c' \<le> uuid_calls w' + processedCount c"
  unfolding accounted_def by (elim exE conjE) simp

lemma process_entry_before_gate:
  assumes "(\<exists>y. parse_message e log_entry = Inl y)
    \<or> (\<exists>message y. parse_message e log_entry = Inr message \<and> js_get message ''BeginTime'' = Inl y)
    \<or> (\<exists>message beginTime. parse_message e log_entry = Inr message
          \<and> js_get message ''BeginTime'' = Inr beginTime
          \<and> (date_iso e beginTime = None \<or> \<not> js_truthy (find_backup_name backups i backupId)))"
  shows "\<exists>x. \<forall>c w. process_entry e machineId backups i backupId log_entry c w = (x, c, w)"
  using assms
proof (elim disjE exE conjE)
  fix message beginTime
  assume "parse_message e log_entry = Inr message" "js_get message ''BeginTime'' = Inr beginTime"
    "\<not> js_truthy (find_backup_name backups i backupId)"
  then show ?thesis
    by (cases "date_iso e beginTime") (auto simp: process_entry_def Let_def)
qed (simp_all add: process_entry_def)

lemma replay_entry:
  assumes pe: "process_entry e machineId backups i backupId log_entry c w = (x, c', w')"
    and tight: "uuid_calls w' + processedCount c = uuid_calls w + processedCount c'"
    and keys: "row_key ` set (backups_table w') \<subseteq> row_key ` set (backups_table v)"
  shows "\<exists>d' v'. process_entry e machineId backups i backupId log_entry d v = (x, d', v')
           \<and> replayed c w c' w' d v d' v'"
proof -
  let ?n = "find_backup_name backups i backupId"
  consider (early) "(\<exists>y. parse_message e log_entry = Inl y)
    \<or> (\<exists>message y. parse_message e log_entry = Inr message \<and> js_get message ''BeginTime'' = Inl y)
    \<or> (\<exists>message beginTime. parse_message e log_entry = Inr message
          \<and> js_get message ''BeginTime'' = Inr beginTime
          \<and> (date_iso e beginTime = None \<or> \<not> js_truthy ?n))"
    | (gate) message beginTime backupDate where "parse_message e log_entry = Inr message"
        "js_get message ''BeginTime'' = Inr beginTime" "date_iso e beginTime = Some backupDate"
        "js_truthy ?n"
    by (cases "parse_message e log_entry"; cases "js_get (projr (parse_message e log_entry)) ''BeginTime''";
        cases "date_iso e (projr (js_get (projr (parse_message e log_entry)) ''BeginTime''))") auto
  then show ?thesis
  proof cases
    case early
    from process_entry_before_gate [OF early, of machineId] obtain x0 where
      x0: "\<And>c w. process_entry e machineId backups i backupId log_entry c w = (x0, c, w)" by blast
    with pe have "x = x0" "c' = c" "w' = w" by simp_all
    with x0 [of d v] show ?thesis by (simp add: replayed_def)
  next
    case gate
    note g1 = process_entry_gate [OF gate, where machineId = machineId and c = c and w = w]
    note g2 = process_entry_gate [OF gate, where machineId = machineId and c = d and w = v]
    let ?ck = "DbCheckDuplicate machineId ?n (JStr backupDate) True"
    have dup2: "process_entry e machineId backups i backupId log_entry d v
       = (None, d\<lparr>skippedCount := skippedCount d + 1\<rparr>, v\<lparr>trace := trace v @ [?ck]\<rparr>)"
      if "(machineId, ?n, JStr backupDate) \<in> row_key ` set (backups_table w')"
    proof -
      from that keys have "checkDuplicateBackup (backups_table v) machineId ?n (JStr backupDate)"
        by (auto simp: checkDuplicateBackup_iff)
      with g2 show ?thesis by (simp add: Let_def)
    qed
    show ?thesis
    proof (cases "checkDuplicateBackup (backups_table w) machineId ?n (JStr backupDate)")
      case True
      with g1 pe have r: "x = None" "c' = c\<lparr>skippedCount := skippedCount c + 1\<rparr>"
        "backups_table w' = backups_table w"
        by (auto simp: Let_def)
      with True have "(machineId, ?n, JStr backupDate) \<in> row_key ` set (backups_table w')"
        by (simp add: checkDuplicateBackup_iff)
      from dup2 [OF this] r show ?thesis by (simp add: replayed_def)
    next
      case False
      note nodup = this
      show ?thesis
      proof (cases "build_row e (JStr (uuidv4 e (uuid_calls w))) machineId ?n backupId backupDate
                   (map_status e message) message")
        case (Inl y)
        with g1 pe nodup have "c' = c" "uuid_calls w' = uuid_calls w + 1"
          by (auto simp: Let_def)
        with tight show ?thesis by simp
      next
        case (Inr r)
        then have key: "row_key r = (machineId, ?n, JStr backupDate)"
          by (auto dest!: build_row_Inr simp: row_literal_key)
        from g1 pe nodup Inr have r: "x = None" "c' = c\<lparr>processedCount := processedCount c + 1\<rparr>"
          "backups_table w' = backups_table w @ [r]"
          by (auto simp: Let_def)
        with key have "(machineId, ?n, JStr backupDate) \<in> row_key ` set (backups_table w')"
          by force
        from dup2 [OF this] r show ?thesis by (simp add: replayed_def)
      qed
    qed
  qed
qed

lemma replayed_trans:
  assumes "replayed c w c1 w1 d v d1 v1" and "replayed c1 w1 c' w' d1 v1 d' v'"
  shows "replayed c w c' w' d v d' v'"
  using assms unfolding replayed_def by simp

lemma replay_entries:
  assumes "process_entries e machineId backups i backupId logs c w = (x, c', w')"
    and "uuid_calls w' + processedCount c = uuid_calls w + processedCount c'"
    and "row_key ` set (backups_table w') \<subseteq> row_key ` set (backups_table v)"
  shows "\<exists>d' v'. process_entries e machineId backups i backupId logs d v = (x, d', v')
           \<and> replayed c w c' w' d v d' v'"
  using assms
proof (induction logs arbitrary: c w d v)
  case Nil
  then show ?case by (simp add: replayed_def)
next
  case (Cons log_entry logs)
  obtain x1 c1 w1 where st: "process_entry e machineId backups i backupId log_entry c w = (x1, c1, w1)"
    by (cases "process_entry e machineId backups i backupId log_entry c w") auto
  note s1 = accounted_slack [OF process_entry_accounted [OF st]]
  show ?case
  proof (cases x1)
    case (Some a)
    with Cons.prems(1) st have eq: "x = x1" "c' = c1" "w' = w1" by simp_all
    from replay_entry [OF st, of v d] Cons.prems(2,3) eq obtain d' v' where
      "process_entry e machineId backups i backupId log_entry d v = (x, d', v')"
      "replayed c w c' w' d v d' v'" by auto
    with Some eq show ?thesis by simp
  next
    case None
    with Cons.prems(1) st
    have rest: "process_entries e machineId backups i backupId logs c1 w1 = (x, c', w')" by simp
    note a2 = process_entries_accounted [OF rest]
    note s2 = accounted_slack [OF a2]
    from s1 s2 Cons.prems(2)
    have t1: "uuid_calls w1 + processedCount c = uuid_calls w + processedCount c1"
      and t2: "uuid_calls w' + processedCount c1 = uuid_calls w1 + processedCount c'"
      by simp_all
    have k1: "row_key ` set (backups_table w1) \<subseteq> row_key ` set (backups_table v)"
      using accounted_keys [OF a2] Cons.prems(3) by blast
    from replay_entry [OF st t1 k1, of d] None obtain d1 v1 where
      r1: "process_entry e machineId backups i backupId log_entry d v = (None, d1, v1)"
      and p1: "replayed c w c1 w1 d v d1 v1" by auto
    have k2: "row_key ` set (backups_table w') \<subseteq> row_key ` set (backups_table v1)"
      using Cons.prems(3) p1 by (simp add: replayed_def)
    from Cons.IH [OF rest t2 k2, of d1] obtain d' v' where
      r2: "process_entries e machineId backups i backupId logs d1 v1 = (x, d', v')"
      and p2: "replayed c1 w1 c' w' d1 v1 d' v'" by auto
    from r1 r2 have "process_entries e machineId backups i backupId (log_entry # logs) d v = (x, d', v')"
      by simp
    with replayed_trans [OF p1 p2] show ?thesis by blast
  qed
qed

lemma replay_job:
  assumes pj: "process_job e opts baseUrl authToken machineId backups i backupId c w = (c', w')"
    and tight: "uuid_calls w' + processedCount c = uuid_calls w + processedCount c'"
    and keys: "row_key ` set (backups_table w') \<subseteq> row_key ` set (backups_table v)"
  shows "\<exists>d' v'. process_job e opts baseUrl authToken machineId backups i backupId d v = (d', v')
           \<and> replayed c w c' w' d v d' v'"
proof -
  let ?req = "log_request e opts baseUrl authToken backupId"
  let ?w0 = "w\<lparr>trace := trace w @ [NetRequest ?req]\<rparr>"
  let ?v0 = "v\<lparr>trace := trace v @ [NetRequest ?req]\<rparr>"
  have failing: ?thesis
    if "\<And>c w. try_job e opts baseUrl authToken machineId backups i backupId c w
          = (Some y, c, w\<lparr>trace := trace w @ [NetRequest ?req]\<rparr>)" for y
  proof -
    from that [of c w] pj have "c' = c\<lparr>errorCount := errorCount c + 1\<rparr>" "w' = ?w0"
      by (simp_all add: process_job_def)
    moreover from that [of d v]
    have "process_job e opts baseUrl authToken machineId backups i backupId d v
            = (d\<lparr>errorCount := errorCount d + 1\<rparr>, ?v0)"
      by (simp add: process_job_def)
    ultimately show ?thesis by (simp add: replayed_def)
  qed
  show ?thesis
  proof (cases "respond e ?req")
    case (Inl y)
    then show ?thesis
      by (intro failing [of y]) (simp add: try_job_def makeRequest_def)
  next
    case (Inr r)
    show ?thesis
    proof (cases "ok r")
      case False
      with Inr show ?thesis
        by (intro failing) (simp add: try_job_def makeRequest_def)
    next
      case True
      show ?thesis
      proof (cases "\<exists>logs. json r = JArr logs")
        case False
        with Inr True show ?thesis
          by (intro failing [of TypeError], cases "json r")
             (simp_all add: try_job_def makeRequest_def process_logs_def)
      next
        case True
        then obtain logs where logs: "json r = JArr logs" by blast
        let ?logs = "filter (is_backup_message e) logs"
        note tj = try_job_fetched [OF Inr \<open>ok r\<close> logs]
        obtain x c1 w1 where pe: "process_entries e machineId backups i backupId ?logs c ?w0 = (x, c1, w1)"
          by (cases "process_entries e machineId backups i backupId ?logs c ?w0") auto
        have ec: "errorCount c1 = errorCount c" using pe by (rule process_entries_errorCount)
        from pj tj pe have cw: "w' = w1"
          "c' = (case x of None \<Rightarrow> c1 | Some y \<Rightarrow> c1\<lparr>errorCount := errorCount c1 + 1\<rparr>)"
          by (auto simp: process_job_def split: option.splits)
        then have pc: "processedCount c' = processedCount c1" "skippedCount c' = skippedCount c1"
          by (cases x; simp)+
        have t: "uuid_calls w1 + processedCount c = uuid_calls ?w0 + processedCount c1"
          using tight cw(1) pc by simp
        have k: "row_key ` set (backups_table w1) \<subseteq> row_key ` set (backups_table ?v0)"
          using keys cw(1) by simp
        from replay_entries [OF pe t k, of d] obtain d1 v1 where
          r: "process_entries e machineId backups i backupId ?logs d ?v0 = (x, d1, v1)"
          and p: "replayed c ?w0 c1 w1 d ?v0 d1 v1" by blast
        let ?d' = "(case x of None \<Rightarrow> d1 | Some y \<Rightarrow> d1\<lparr>errorCount := errorCount d1 + 1\<rparr>)"
        have "process_job e opts baseUrl authToken machineId backups i backupId d v = (?d', v1)"
          using tj r by (auto simp: process_job_def split: option.splits)
        moreover have "replayed c w c' w' d v ?d' v1"
          using p cw pc ec by (cases x) (simp_all add: replayed_def)
        ultimately show ?thesis by blast
      qed
    qed
  qed
qed

lemma replay_jobs:
  assumes "process_jobs e opts baseUrl authToken machineId backups i backupIds c w = (c', w')"
    and "uuid_calls w' + processedCount c = uuid_calls w + processedCount c'"
    and "row_key ` set (backups_table w') \<subseteq> row_key ` set (backups_table v)"
  shows "\<exists>d' v'. process_jobs e opts baseUrl authToken machineId backups i backupIds d v = (d', v')
           \<and> replayed c w c' w' d v d' v'"
  using assms
proof (induction backupIds arbitrary: i c w d v)
  case Nil
  then show ?case by (simp add: replayed_def)
next
  case (Cons backupId backupIds)
  obtain c1 w1 where st: "process_job e opts baseUrl authToken machineId backups i backupId c w = (c1, w1)"
    by (cases "process_job e opts baseUrl authToken machineId backups i backupId c w") auto
  with Cons.prems(1)
  have rest: "process_jobs e opts baseUrl authToken machineId backups (Suc i) backupIds c1 w1 = (c', w')"
    by simp
  note s1 = accounted_slack [OF process_job_accounted [OF st]]
  note a2 = process_jobs_accounted [OF rest]
  note s2 = accounted_slack [OF a2]
  from s1 s2 Cons.prems(2)
  have t1: "uuid_calls w1 + processedCount c = uuid_calls w + processedCount c1"
    and t2: "uuid_calls w' + processedCount c1 = uuid_calls w1 + processedCount c'"
    by simp_all
  have k1: "row_key ` set (backups_table w1) \<subseteq> row_key ` set (backups_table v)"
    using accounted_keys [OF a2] Cons.prems(3) by blast
  from replay_job [OF st t1 k1, of d] obtain d1 v1 where
    r1: "process_job e opts baseUrl authToken machineId backups i backupId d v = (d1, v1)"
    and p1: "replayed c w c1 w1 d v d1 v1" by blast
  have k2: "row_key ` set (backups_table w') \<subseteq> row_key ` set (backups_table v1)"
    using Cons.prems(3) p1 by (simp add: replayed_def)
  from Cons.IH [OF rest t2 k2, of d1] obtain d' v' where
    r2: "process_jobs e opts baseUrl authToken machineId backups (Suc i) backupIds d1 v1 = (d', v')"
    and p2: "replayed c1 w1 c' w' d1 v1 d' v'" by blast
  from r1 r2
  have "process_jobs e opts baseUrl authToken machineId backups i (backupId # backupIds) d v = (d', v')"
    by simp
  with replayed_trans [OF p1 p2] show ?case by blast
qed

text \<open>A counted result tells which path the invocation took.\<close>

lemma POST_stats_path:
  assumes "POST e rq w = (stats_response c, w')"
  shows "\<exists>b authToken machineId machineName backups backupIds cj.
     rq = Some b \<and> valid_config b
     \<and> fst (login e (options_of b) (baseUrl_of e b) (password_of b) w) = Inr authToken
     \<and> fst (getSystemInfo e (options_of b) (baseUrl_of e b) authToken w) = Inr (machineId, machineName)
     \<and> fst (listBackups e (options_of b) (baseUrl_of e b) authToken w) = Inr (backups, backupIds)
     \<and> backupIds \<noteq> []
     \<and> process_jobs e (options_of b) (baseUrl_of e b) authToken machineId backups 0 backupIds
          no_counters
          (listed_world e (options_of b) (baseUrl_of e b) (password_of b) authToken machineId machineName w)
        = (cj, w')
     \<and> processedCount cj = processedCount c \<and> skippedCount cj = skippedCount c
     \<and> errorCount cj = errorCount c"
proof (cases rq)
  case None
  with assms show ?thesis by (simp add: POST_def try_POST_def)
next
  case (Some b)
  show ?thesis
  proof (cases "valid_config b")
    case False
    note inv = try_POST_invalid [OF False, of e w]
    from assms Some have resp: "stats_response c = (case fst (try_POST e (Some b) w) of
            Inl x \<Rightarrow> NextResponse_json (JObj [(''error'', JStr (exn_message x))]) 500
          | Inr r \<Rightarrow> r)"
      by (simp add: POST_eq)
    show ?thesis
    proof (cases "fst (try_POST e (Some b) w)")
      case (Inl x)
      with resp show ?thesis by (simp add: stats_response_def)
    next
      case (Inr r)
      with inv(2) obtain msg where "r = NextResponse_json (JObj [(''error'', JStr msg)]) 400"
        by blast
      with resp Inr show ?thesis by (simp add: stats_response_def)
    qed
  next
    case True
    let ?o = "options_of b" and ?u = "baseUrl_of e b" and ?p = "password_of b"
    obtain res w1 where rc: "run_collection e ?o ?u ?p w = (res, w1)"
      by (cases "run_collection e ?o ?u ?p w") auto
    from POST_valid [OF True rc] assms Some
    have w': "w' = w1" and resp: "stats_response c = (case res of
        Inl x \<Rightarrow> NextResponse_json (JObj [(''error'', JStr (exn_message x))]) 500
      | Inr r \<Rightarrow> r)" by simp_all
    then have res: "res = Inr (stats_response c)"
      by (cases res) (simp_all add: stats_response_def)
    show ?thesis
    proof (cases "fst (login e ?o ?u ?p w)")
      case (Inl x)
      from run_collection_login_fail [OF this] rc res show ?thesis by simp
    next
      case (Inr authToken)
      note l = this
      show ?thesis
      proof (cases "fst (getSystemInfo e ?o ?u authToken w)")
        case (Inl x)
        from run_collection_systeminfo_fail [OF l this] rc res show ?thesis by simp
      next
        case (Inr mm)
        obtain machineId machineName where mm: "mm = (machineId, machineName)" by (cases mm)
        note s = Inr [unfolded mm]
        note rl = run_collection_listed [OF l s]
        let ?w4 = "listed_world e ?o ?u ?p authToken machineId machineName w"
        show ?thesis
        proof (cases "fst (listBackups e ?o ?u authToken w)")
          case (Inl x)
          with rl rc res show ?thesis by (simp add: Let_def)
        next
          case (Inr bb)
          obtain backups backupIds where bb: "bb = (backups, backupIds)" by (cases bb)
          note lb = Inr [unfolded bb]
          show ?thesis
          proof (cases "backupIds = []")
            case True
            with rl rc res lb show ?thesis
              by (simp add: Let_def no_backups_response_def stats_response_def)
          next
            case False
            obtain cj wj where pj: "process_jobs e ?o ?u authToken machineId backups 0 backupIds
                       no_counters ?w4 = (cj, wj)"
              by (cases "process_jobs e ?o ?u authToken machineId backups 0 backupIds
                       no_counters ?w4") auto
            with rl rc res lb False have "stats_response cj = stats_response c" "wj = w1"
              by (simp_all add: Let_def)
            with stats_response_inject [of cj c] pj w' Some True l s lb False
            show ?thesis by blast
          qed
        qed
      qed
    qed
  qed
qed

lemma POST_counted:
  assumes "valid_config b"
    and "fst (login e (options_of b) (baseUrl_of e b) (password_of b) w) = Inr authToken"
    and "fst (getSystemInfo e (options_of b) (baseUrl_of e b) authToken w) = Inr (machineId, machineName)"
    and "fst (listBackups e (options_of b) (baseUrl_of e b) authToken w) = Inr (backups, backupIds)"
    and "backupIds \<noteq> []"
    and "process_jobs e (options_of b) (baseUrl_of e b) authToken machineId backups 0 backupIds
          no_counters
          (listed_world e (options_of b) (baseUrl_of e b) (password_of b) authToken machineId machineName w)
        = (c, w')"
  shows "POST e (Some b) w = (stats_response c, w')"
proof -
  have "run_collection e (options_of b) (baseUrl_of e b) (password_of b) w = (Inr (stats_response c), w')"
    using run_collection_listed [OF assms(2,3)] assms(4-6) by (simp add: Let_def)
  from POST_valid [OF assms(1) this] show ?thesis by simp
qed

lemma second_call:
  assumes "POST e rq w = (stats_response c1, w1)"
    and "uuid_calls w1 = uuid_calls w + processedCount c1"
  shows "\<exists>c2 w2. POST e rq w1 = (stats_response c2, w2)
     \<and> processedCount c2 = 0
     \<and> skippedCount c2 = processedCount c1 + skippedCount c1
     \<and> errorCount c2 = errorCount c1
     \<and> backups_table w2 = backups_table w1
     \<and> uuid_calls w2 = uuid_calls w1"
proof -
  from POST_stats_path [OF assms(1)] obtain b authToken machineId machineName backups backupIds cj
    where rq: "rq = Some b" and v: "valid_config b"
      and l: "fst (login e (options_of b) (baseUrl_of e b) (password_of b) w) = Inr authToken"
      and s: "fst (getSystemInfo e (options_of b) (baseUrl_of e b) authToken w) = Inr (machineId, machineName)"
      and lb: "fst (listBackups e (options_of b) (baseUrl_of e b) authToken w) = Inr (backups, backupIds)"
      and ne: "backupIds \<noteq> []"
      and pj: "process_jobs e (options_of b) (baseUrl_of e b) authToken machineId backups 0 backupIds
          no_counters
          (listed_world e (options_of b) (baseUrl_of e b) (password_of b) authToken machineId machineName w)
        = (cj, w1)"
      and cj: "processedCount cj = processedCount c1" "skippedCount cj = skippedCount c1"
        "errorCount cj = errorCount c1"
    by blast
  let ?o = "options_of b" and ?u = "baseUrl_of e b" and ?p = "password_of b"
  let ?w4 = "listed_world e ?o ?u ?p authToken machineId machineName w"
  let ?v4 = "listed_world e ?o ?u ?p authToken machineId machineName w1"
  have t: "uuid_calls w1 + processedCount no_counters = uuid_calls ?w4 + processedCount cj"
    using assms(2) cj by (simp add: listed_world_def no_counters_def)
  have k: "row_key ` set (backups_table w1) \<subseteq> row_key ` set (backups_table ?v4)"
    by (simp add: listed_world_def)
  from replay_jobs [OF pj t k, of no_counters] obtain c2 w2 where
    r: "process_jobs e ?o ?u authToken machineId backups 0 backupIds no_counters ?v4 = (c2, w2)"
    and p: "replayed no_counters ?w4 cj w1 no_counters ?v4 c2 w2" by blast
  have l': "fst (login e ?o ?u ?p w1) = Inr authToken"
    using l login_fst [of e ?o ?u ?p w1 w] by simp
  have s': "fst (getSystemInfo e ?o ?u authToken w1) = Inr (machineId, machineName)"
    using s getSystemInfo_fst [of e ?o ?u authToken w1 w] by simp
  have lb': "fst (listBackups e ?o ?u authToken w1) = Inr (backups, backupIds)"
    using lb listBackups_fst [of e ?o ?u authToken w1 w] by simp
  have "POST e rq w1 = (stats_response c2, w2)"
    unfolding rq using v l' s' lb' ne r by (rule POST_counted)
  moreover from p cj have "processedCount c2 = 0"
    "skippedCount c2 = processedCount c1 + skippedCount c1"
    "errorCount c2 = errorCount c1"
    "backups_table w2 = backups_table w1" "uuid_calls w2 = uuid_calls w1"
    by (simp_all add: replayed_def no_counters_def listed_world_def)
  ultimately show ?thesis by blast
qed













section \<open>Concrete runs against the three servers\<close>

lemmas demo_texts = login_data_def nas_systeminfo_data_def lab_systeminfo_data_def
  new_systeminfo_data_def old_systeminfo_data_def mail_systeminfo_data_def mail_backups_data_def
  mail_run_def nas_backups_data_def lab_backups_data_def
  new_backups_data_def
  docs_run_def docs_compact_def music_run_def home_run_1_def home_run_bad_def home_run_2_def
  log_data_def json_string_literal_def

lemma target_valid: "valid_config (target_body (c # cs))"
  by (simp add: valid_config_def target_body_def protocol_of_def js_default_def)

lemma show_nat_8200: "show_nat 8200 = ''8200''"
  by (simp add: show_nat.simps)

lemma target_baseUrl: "baseUrl_of e (target_body host) = ''http://'' @ host @ '':8200''"
  by (simp add: baseUrl_of_def target_body_def protocol_of_def js_default_def show_int_def
        show_nat_8200 is_safe_integer_def)

lemma target_options: "options_of (target_body host) = plain_options"
  by (simp add: options_of_def target_body_def protocol_of_def js_default_def requestOptions_def
        plain_options_def)

lemma target_password: "password_of (target_body host) = JStr ''secret''"
  by (simp add: password_of_def target_body_def)

lemma demo_parse:
  "demo_json_parse login_data = Some (JObj [(''AccessToken'', JStr ''tok'')])"
  "demo_json_parse nas_systeminfo_data = Some (systeminfo_value ''nas'' ''m-1'')"
  "demo_json_parse lab_systeminfo_data = Some (systeminfo_value ''lab'' ''m-2'')"
  "demo_json_parse new_systeminfo_data = Some (systeminfo_value ''new'' ''m-3'')"
  "demo_json_parse old_systeminfo_data = Some (systeminfo_value ''old'' ''m-4'')"
  "demo_json_parse nas_backups_data = Some (JArr nas_backups)"
  "demo_json_parse lab_backups_data = Some (JArr lab_backups)"
  "demo_json_parse new_backups_data = Some (JArr [])"
  "demo_json_parse (log_data [docs_run, docs_compact]) = Some (JArr [entry docs_run, entry docs_compact])"
  "demo_json_parse (log_data [music_run]) = Some (JArr [entry music_run])"
  "demo_json_parse (log_data [home_run_1, home_run_bad, home_run_2])
     = Some (JArr [entry home_run_1, entry home_run_bad, entry home_run_2])"
  "demo_json_parse docs_run = Some docs_message"
  "demo_json_parse docs_compact = Some compact_message"
  "demo_json_parse music_run = Some music_message"
  "demo_json_parse home_run_1 = Some (home_message ''2025-03-03T02:00:00Z'' ''2025-03-03T02:10:00Z'')"
  "demo_json_parse home_run_bad = Some (home_message ''yesterday'' ''2025-03-04T02:10:00Z'')"
  "demo_json_parse home_run_2 = Some (home_message ''2025-03-05T02:00:00Z'' ''2025-03-05T02:10:00Z'')"
  "demo_json_parse mail_systeminfo_data = Some (systeminfo_value ''mail'' ''m-5'')"
  "demo_json_parse mail_backups_data = Some (JArr mail_backups)"
  "demo_json_parse (log_data [mail_run]) = Some (JArr [entry mail_run])"
  "demo_json_parse mail_run = Some (home_message ''2025-03-06T02:00:00Z'' ''2025-03-06T02:10:00Z'')"
  by (simp_all add: demo_json_parse_def demo_texts)

lemma demo_sel:
  "transport demo_env = demo_transport" "json_parse demo_env = demo_json_parse"
  "json_stringify demo_env = demo_json_stringify" "date_iso demo_env = demo_date_iso"
  "uuidv4 demo_env = demo_uuidv4" "number_text demo_env = demo_number_text"
  "text_number demo_env = demo_text_number"
  by (simp_all add: demo_env_def)

lemma demo_respond:
  "demo_transport req = Some (ok_response text) \<Longrightarrow> demo_json_parse text = Some v
   \<Longrightarrow> respond demo_env req = Inr \<lparr>ok = True, status_code = 200, statusText = ''OK'', json = v\<rparr>"
  by (simp add: respond_def demo_env_def ok_response_def)

lemma nas_transport:
  "demo_transport (login_request demo_env plain_options nas_url pw) = Some (ok_response login_data)"
  "demo_transport (systeminfo_request demo_env plain_options nas_url tok) = Some (ok_response nas_systeminfo_data)"
  "demo_transport (backups_request demo_env plain_options nas_url tok) = Some (ok_response nas_backups_data)"
  "demo_transport (log_request demo_env plain_options nas_url tok (JStr ''1''))
     = Some (ok_response (log_data [docs_run, docs_compact]))"
  "demo_transport (log_request demo_env plain_options nas_url tok (JStr ''2'')) = None"
  "demo_transport (log_request demo_env plain_options nas_url tok (JStr ''3''))
     = Some (ok_response (log_data [music_run]))"
  by (simp_all add: demo_transport_def login_request_def systeminfo_request_def
        backups_request_def log_request_def authorized_def nas_url_def)

lemma nas_respond:
  "respond demo_env (login_request demo_env plain_options nas_url pw)
     = Inr \<lparr>ok = True, status_code = 200, statusText = ''OK'',
            json = JObj [(''AccessToken'', JStr ''tok'')]\<rparr>"
  "respond demo_env (systeminfo_request demo_env plain_options nas_url tok)
     = Inr \<lparr>ok = True, status_code = 200, statusText = ''OK'',
            json = systeminfo_value ''nas'' ''m-1''\<rparr>"
  "respond demo_env (backups_request demo_env plain_options nas_url tok)
     = Inr \<lparr>ok = True, status_code = 200, statusText = ''OK'', json = JArr nas_backups\<rparr>"
  "respond demo_env (log_request demo_env plain_options nas_url tok (JStr ''1''))
     = Inr \<lparr>ok = True, status_code = 200, statusText = ''OK'',
            json = JArr [entry docs_run, entry docs_compact]\<rparr>"
  "respond demo_env (log_request demo_env plain_options nas_url tok (JStr ''2'')) = Inl NetworkError"
  "respond demo_env (log_request demo_env plain_options nas_url tok (JStr ''3''))
     = Inr \<lparr>ok = True, status_code = 200, statusText = ''OK'', json = JArr [entry music_run]\<rparr>"
  by (simp_all add: demo_respond nas_transport demo_parse)
     (simp add: respond_def demo_sel nas_transport)

lemma nas_login:
  "fst (login demo_env plain_options nas_url (JStr ''secret'') w) = Inr (JStr ''tok'')"
  by (simp add: login_def makeRequest_def nas_respond)

lemma machine_id_of_systeminfo: "machine_id_of (systeminfo_value name mid) = Inr (JStr mid)"
  by (simp add: machine_id_of_def systeminfo_value_def js_opt_def)

lemma nas_systeminfo:
  "fst (getSystemInfo demo_env plain_options nas_url (JStr ''tok'') w)
     = Inr (JStr ''m-1'', JStr ''nas'')"
  by (simp add: getSystemInfo_def makeRequest_def nas_respond machine_id_of_systeminfo)
     (simp add: systeminfo_value_def)

lemma nas_listBackups:
  "fst (listBackups demo_env plain_options nas_url (JStr ''tok'') w)
     = Inr (nas_backups, [JStr ''1'', JStr ''2'', JStr ''3''])"
  by (simp add: listBackups_def makeRequest_def nas_respond)
     (simp add: nas_backups_def job_value_def)

lemma nas_names:
  "find_backup_name nas_backups 0 (JStr ''1'') = JStr ''Docs''"
  "find_backup_name nas_backups 1 (JStr ''2'') = JStr ''Photos''"
  "find_backup_name nas_backups 2 (JStr ''3'') = JStr ''Music''"
  by (simp_all add: find_backup_name_def nas_backups_def job_value_def js_strict_eq_def
        enumerate_eq_zip upt_rec)

lemma demo_messages:
  "parse_message demo_env (entry docs_run) = Inr docs_message"
  "parse_message demo_env (entry docs_compact) = Inr compact_message"
  "parse_message demo_env (entry music_run) = Inr music_message"
  "parse_message demo_env (entry home_run_1)
     = Inr (home_message ''2025-03-03T02:00:00Z'' ''2025-03-03T02:10:00Z'')"
  "parse_message demo_env (entry home_run_bad)
     = Inr (home_message ''yesterday'' ''2025-03-04T02:10:00Z'')"
  "parse_message demo_env (entry home_run_2)
     = Inr (home_message ''2025-03-05T02:00:00Z'' ''2025-03-05T02:10:00Z'')"
  by (simp_all add: parse_message_def entry_def demo_env_def demo_parse)

lemma demo_retained:
  "is_backup_message demo_env (entry docs_run)"
  "\<not> is_backup_message demo_env (entry docs_compact)"
  "is_backup_message demo_env (entry music_run)"
  "is_backup_message demo_env (entry home_run_1)"
  "is_backup_message demo_env (entry home_run_bad)"
  "is_backup_message demo_env (entry home_run_2)"
  by (simp_all add: is_backup_message_def demo_messages js_opt_def docs_message_def
        compact_message_def music_message_def home_message_def)

lemma demo_dates:
  "demo_date_iso (JStr ''2025-03-01T02:00:00Z'') = Some ''2025-03-01T02:00:00.000Z''"
  "demo_date_iso (JStr ''2025-03-01T02:05:00Z'') = Some ''2025-03-01T02:05:00.000Z''"
  "demo_date_iso (JStr ''2025-03-02T02:00:00Z'') = Some ''2025-03-02T02:00:00.000Z''"
  "demo_date_iso (JStr ''2025-03-02T02:01:00Z'') = Some ''2025-03-02T02:01:00.000Z''"
  "demo_date_iso (JStr ''2025-03-03T02:00:00Z'') = Some ''2025-03-03T02:00:00.000Z''"
  "demo_date_iso (JStr ''2025-03-03T02:10:00Z'') = Some ''2025-03-03T02:10:00.000Z''"
  "demo_date_iso (JStr ''2025-03-05T02:00:00Z'') = Some ''2025-03-05T02:00:00.000Z''"
  "demo_date_iso (JStr ''2025-03-05T02:10:00Z'') = Some ''2025-03-05T02:10:00.000Z''"
  "demo_date_iso (JStr ''yesterday'') = None"
  "demo_date_iso JUndefined = None"
  by (simp_all add: demo_date_iso_def)

lemma demo_build_row:
  assumes "js_prop message ''BackendStatistics'' = JUndefined"
    and "demo_date_iso (js_prop message ''BeginTime'') = Some begin_time"
    and "demo_date_iso (js_prop message ''EndTime'') = Some end_time"
  shows "build_row demo_env rid machineId n backupId backupDate st message
     = Inr (row_literal demo_env rid machineId n backupId backupDate st message
              (JStr begin_time) (JStr end_time) JNull JNull)"
  using assms by (simp add: build_row_def demo_env_def opt_date_def js_opt_def)

lemma demo_entry:
  assumes "parse_message demo_env log_entry = Inr message"
    and "js_get message ''BeginTime'' = Inr (js_prop message ''BeginTime'')"
    and "js_prop message ''BackendStatistics'' = JUndefined"
    and "demo_date_iso (js_prop message ''BeginTime'') = Some begin_time"
    and "demo_date_iso (js_prop message ''EndTime'') = Some end_time"
    and "find_backup_name backups i backupId = n" and "js_truthy n"
    and "map_status demo_env message = st"
  shows "process_entry demo_env machineId backups i backupId log_entry c w =
     (if checkDuplicateBackup (backups_table w) machineId n (JStr begin_time)
      then (None, c\<lparr>skippedCount := skippedCount c + 1\<rparr>,
            w\<lparr>trace := trace w @ [DbCheckDuplicate machineId n (JStr begin_time) True]\<rparr>)
      else (let r = row_literal demo_env (JStr (demo_uuidv4 (uuid_calls w))) machineId n backupId
                      begin_time st message (JStr begin_time) (JStr end_time) JNull JNull in
            (None, c\<lparr>processedCount := processedCount c + 1\<rparr>,
             w\<lparr>trace := trace w @ [DbCheckDuplicate machineId n (JStr begin_time) False,
                                   DbInsertBackup r],
               uuid_calls := uuid_calls w + 1,
               backups_table := backups_table w @ [r]\<rparr>)))"
proof -
  have d: "date_iso demo_env (js_prop message ''BeginTime'') = Some begin_time"
    using assms(4) by (simp add: demo_env_def)
  have t: "js_truthy (find_backup_name backups i backupId)" using assms(6,7) by simp
  have u: "uuidv4 demo_env = demo_uuidv4" by (simp add: demo_env_def)
  show ?thesis
    unfolding process_entry_gate [OF assms(1,2) d t] assms(6) assms(8) u
      demo_build_row [OF assms(3,4,5)]
    by (simp add: Let_def)
qed

lemma docs_entry:
  "process_entry demo_env machineId nas_backups 0 (JStr ''1'') (entry docs_run) c w =
     (if checkDuplicateBackup (backups_table w) machineId (JStr ''Docs'') (JStr ''2025-03-01T02:00:00.000Z'')
      then (None, c\<lparr>skippedCount := skippedCount c + 1\<rparr>,
            w\<lparr>trace := trace w @ [DbCheckDuplicate machineId (JStr ''Docs'')
                                    (JStr ''2025-03-01T02:00:00.000Z'') True]\<rparr>)
      else (let r = row_literal demo_env (JStr (demo_uuidv4 (uuid_calls w))) machineId (JStr ''Docs'')
                      (JStr ''1'') ''2025-03-01T02:00:00.000Z'' (JStr ''Warning'') docs_message
                      (JStr ''2025-03-01T02:00:00.000Z'') (JStr ''2025-03-01T02:05:00.000Z'')
                      JNull JNull in
            (None, c\<lparr>processedCount := processedCount c + 1\<rparr>,
             w\<lparr>trace := trace w @ [DbCheckDuplicate machineId (JStr ''Docs'')
                                     (JStr ''2025-03-01T02:00:00.000Z'') False,
                                   DbInsertBackup r],
               uuid_calls := uuid_calls w + 1,
               backups_table := backups_table w @ [r]\<rparr>)))"
  by (rule demo_entry [OF demo_messages(1)])
     (simp_all add: docs_message_def demo_dates nas_names map_status_def js_gt_zero_def)

lemma music_entry:
  "process_entry demo_env machineId nas_backups 2 (JStr ''3'') (entry music_run) c w =
     (if checkDuplicateBackup (backups_table w) machineId (JStr ''Music'') (JStr ''2025-03-02T02:00:00.000Z'')
      then (None, c\<lparr>skippedCount := skippedCount c + 1\<rparr>,
            w\<lparr>trace := trace w @ [DbCheckDuplicate machineId (JStr ''Music'')
                                    (JStr ''2025-03-02T02:00:00.000Z'') True]\<rparr>)
      else (let r = row_literal demo_env (JStr (demo_uuidv4 (uuid_calls w))) machineId (JStr ''Music'')
                      (JStr ''3'') ''2025-03-02T02:00:00.000Z'' (JStr ''Error'') music_message
                      (JStr ''2025-03-02T02:00:00.000Z'') (JStr ''2025-03-02T02:01:00.000Z'')
                      JNull JNull in
            (None, c\<lparr>processedCount := processedCount c + 1\<rparr>,
             w\<lparr>trace := trace w @ [DbCheckDuplicate machineId (JStr ''Music'')
                                     (JStr ''2025-03-02T02:00:00.000Z'') False,
                                   DbInsertBackup r],
               uuid_calls := uuid_calls w + 1,
               backups_table := backups_table w @ [r]\<rparr>)))"
  by (rule demo_entry [OF demo_messages(3)])
     (simp_all add: music_message_def demo_dates nas_names map_status_def js_gt_zero_def)

lemma nas_try_jobs:
  "try_job demo_env plain_options nas_url (JStr ''tok'') machineId nas_backups 0 (JStr ''1'') c w
     = process_entry demo_env machineId nas_backups 0 (JStr ''1'') (entry docs_run) c
         (w\<lparr>trace := trace w @ [NetRequest (log_request demo_env plain_options nas_url (JStr ''tok'') (JStr ''1''))]\<rparr>)"
  "try_job demo_env plain_options nas_url (JStr ''tok'') machineId nas_backups 2 (JStr ''3'') c w
     = process_entry demo_env machineId nas_backups 2 (JStr ''3'') (entry music_run) c
         (w\<lparr>trace := trace w @ [NetRequest (log_request demo_env plain_options nas_url (JStr ''tok'') (JStr ''3''))]\<rparr>)"
  by (simp_all add: try_job_fetched [OF nas_respond(4)] try_job_fetched [OF nas_respond(6)]
        demo_retained split: prod.splits option.splits)

lemma nas_job1:
  "process_job demo_env plain_options nas_url (JStr ''tok'') machineId nas_backups 0 (JStr ''1'') c w
     = (case process_entry demo_env machineId nas_backups 0 (JStr ''1'') (entry docs_run) c
         (w\<lparr>trace := trace w @ [NetRequest (log_request demo_env plain_options nas_url (JStr ''tok'') (JStr ''1''))]\<rparr>)
        of (x, c', w') \<Rightarrow> (c', w'))"
  by (simp add: process_job_def nas_try_jobs docs_entry Let_def)

lemma nas_job2:
  "process_job demo_env plain_options nas_url (JStr ''tok'') machineId nas_backups i (JStr ''2'') c w
     = (c\<lparr>errorCount := errorCount c + 1\<rparr>,
        w\<lparr>trace := trace w @ [NetRequest (log_request demo_env plain_options nas_url (JStr ''tok'') (JStr ''2''))]\<rparr>)"
  by (rule process_job_fetch_failed) (simp add: nas_respond)

lemma nas_job3:
  "process_job demo_env plain_options nas_url (JStr ''tok'') machineId nas_backups 2 (JStr ''3'') c w
     = (case process_entry demo_env machineId nas_backups 2 (JStr ''3'') (entry music_run) c
         (w\<lparr>trace := trace w @ [NetRequest (log_request demo_env plain_options nas_url (JStr ''tok'') (JStr ''3''))]\<rparr>)
        of (x, c', w') \<Rightarrow> (c', w'))"
  by (simp add: process_job_def nas_try_jobs music_entry Let_def)

lemma nas_row_keys:
  "row_key docs_row = (JStr ''m-1'', JStr ''Docs'', JStr ''2025-03-01T02:00:00.000Z'')"
  "row_key music_row = (JStr ''m-1'', JStr ''Music'', JStr ''2025-03-02T02:00:00.000Z'')"
  by (simp_all add: docs_row_def music_row_def row_literal_key)

lemma music_row_Suc:
  "row_literal demo_env (JStr (demo_uuidv4 (Suc 0))) (JStr ''m-1'') (JStr ''Music'') (JStr ''3'')
     ''2025-03-02T02:00:00.000Z'' (JStr ''Error'') music_message
     (JStr ''2025-03-02T02:00:00.000Z'') (JStr ''2025-03-02T02:01:00.000Z'') JNull JNull = music_row"
  by (simp add: music_row_def)

lemma nas_jobs_unfold:
  "process_jobs demo_env plain_options nas_url (JStr ''tok'') machineId nas_backups 0
     [JStr ''1'', JStr ''2'', JStr ''3''] c w
   = (case process_job demo_env plain_options nas_url (JStr ''tok'') machineId nas_backups 0 (JStr ''1'') c w of
        (c1, w1) \<Rightarrow>
      (case process_job demo_env plain_options nas_url (JStr ''tok'') machineId nas_backups 1 (JStr ''2'') c1 w1 of
        (c2, w2) \<Rightarrow>
       process_job demo_env plain_options nas_url (JStr ''tok'') machineId nas_backups 2 (JStr ''3'') c2 w2))"
  by (simp add: numeral_2_eq_2 split: prod.splits)

lemma nas_jobs_first:
  "process_jobs demo_env plain_options nas_url (JStr ''tok'') (JStr ''m-1'') nas_backups 0
     [JStr ''1'', JStr ''2'', JStr ''3''] no_counters
     (listed_world demo_env plain_options nas_url (JStr ''secret'') (JStr ''tok'')
        (JStr ''m-1'') (JStr ''nas'') empty_world)
   = (\<lparr>processedCount = 2, skippedCount = 0, errorCount = 1\<rparr>, nas_world1)"
  unfolding nas_jobs_unfold nas_job1 nas_job2 nas_job3 docs_entry music_entry
  by (simp add: listed_world_def empty_world_def no_counters_def nas_world1_def upsertMachine_def
        checkDuplicateBackup_def Let_def docs_row_def [symmetric] music_row_Suc
        nas_row_keys)

lemma nas_target: "baseUrl_of e (target_body ''nas.local'') = nas_url"
  by (simp add: target_baseUrl nas_url_def)

lemma nas_first_run:
  "POST demo_env (Some (target_body ''nas.local'')) empty_world
     = (stats_response \<lparr>processedCount = 2, skippedCount = 0, errorCount = 1\<rparr>, nas_world1)"
proof (rule POST_counted [where authToken = "JStr ''tok''" and machineId = "JStr ''m-1''"
        and machineName = "JStr ''nas''" and backups = nas_backups
        and backupIds = "[JStr ''1'', JStr ''2'', JStr ''3'']"])
  show "process_jobs demo_env (options_of (target_body ''nas.local''))
     (baseUrl_of demo_env (target_body ''nas.local'')) (JStr ''tok'') (JStr ''m-1'') nas_backups 0
     [JStr ''1'', JStr ''2'', JStr ''3''] no_counters
     (listed_world demo_env (options_of (target_body ''nas.local''))
       (baseUrl_of demo_env (target_body ''nas.local'')) (password_of (target_body ''nas.local''))
       (JStr ''tok'') (JStr ''m-1'') (JStr ''nas'') empty_world) =
    (\<lparr>processedCount = 2, skippedCount = 0, errorCount = 1\<rparr>, nas_world1)"
    by (simp only: target_options nas_target target_password nas_jobs_first)
qed (simp_all add: target_valid target_options nas_target target_password nas_login
        nas_systeminfo nas_listBackups)

lemma counters_eq:
  "processedCount c = p \<Longrightarrow> skippedCount c = s \<Longrightarrow> errorCount c = x
   \<Longrightarrow> c = \<lparr>processedCount = p, skippedCount = s, errorCount = x\<rparr>"
  by (cases c) simp

lemma other_transport:
  "demo_transport (login_request demo_env plain_options ''http://new.local:8200'' pw)
     = Some (ok_response login_data)"
  "demo_transport (systeminfo_request demo_env plain_options ''http://new.local:8200'' tok)
     = Some (ok_response new_systeminfo_data)"
  "demo_transport (backups_request demo_env plain_options ''http://new.local:8200'' tok)
     = Some (ok_response new_backups_data)"
  "demo_transport (login_request demo_env plain_options ''http://old.local:8200'' pw)
     = Some (ok_response login_data)"
  "demo_transport (systeminfo_request demo_env plain_options ''http://old.local:8200'' tok)
     = Some (ok_response old_systeminfo_data)"
  "demo_transport (backups_request demo_env plain_options ''http://old.local:8200'' tok) = None"
  "demo_transport (log_request demo_env plain_options lab_url tok (JStr ''7''))
     = Some (ok_response (log_data [home_run_1, home_run_bad, home_run_2]))"
  by (simp_all add: demo_transport_def login_request_def systeminfo_request_def
        backups_request_def log_request_def authorized_def lab_url_def)

lemma other_respond:
  "respond demo_env (login_request demo_env plain_options ''http://new.local:8200'' pw)
     = Inr \<lparr>ok = True, status_code = 200, statusText = ''OK'',
            json = JObj [(''AccessToken'', JStr ''tok'')]\<rparr>"
  "respond demo_env (systeminfo_request demo_env plain_options ''http://new.local:8200'' tok)
     = Inr \<lparr>ok = True, status_code = 200, statusText = ''OK'',
            json = systeminfo_value ''new'' ''m-3''\<rparr>"
  "respond demo_env (backups_request demo_env plain_options ''http://new.local:8200'' tok)
     = Inr \<lparr>ok = True, status_code = 200, statusText = ''OK'', json = JArr []\<rparr>"
  "respond demo_env (login_request demo_env plain_options ''http://old.local:8200'' pw)
     = Inr \<lparr>ok = True, status_code = 200, statusText = ''OK'',
            json = JObj [(''AccessToken'', JStr ''tok'')]\<rparr>"
  "respond demo_env (systeminfo_request demo_env plain_options ''http://old.local:8200'' tok)
     = Inr \<lparr>ok = True, status_code = 200, statusText = ''OK'',
            json = systeminfo_value ''old'' ''m-4''\<rparr>"
  "respond demo_env (log_request demo_env plain_options lab_url tok (JStr ''7''))
     = Inr \<lparr>ok = True, status_code = 200, statusText = ''OK'',
            json = JArr [entry home_run_1, entry home_run_bad, entry home_run_2]\<rparr>"
  by (simp_all add: demo_respond other_transport demo_parse)

lemma old_respond_backups:
  "respond demo_env (backups_request demo_env plain_options ''http://old.local:8200'' tok) = Inl NetworkError"
  by (simp add: respond_def demo_sel other_transport)

lemma new_stages:
  "fst (login demo_env plain_options ''http://new.local:8200'' (JStr ''secret'') w) = Inr (JStr ''tok'')"
  "fst (getSystemInfo demo_env plain_options ''http://new.local:8200'' (JStr ''tok'') w)
     = Inr (JStr ''m-3'', JStr ''new'')"
  by (simp_all add: login_def getSystemInfo_def makeRequest_def other_respond
        machine_id_of_systeminfo)
     (simp add: systeminfo_value_def)

lemma old_stages:
  "fst (login demo_env plain_options ''http://old.local:8200'' (JStr ''secret'') w) = Inr (JStr ''tok'')"
  "fst (getSystemInfo demo_env plain_options ''http://old.local:8200'' (JStr ''tok'') w)
     = Inr (JStr ''m-4'', JStr ''old'')"
  "fst (listBackups demo_env plain_options ''http://old.local:8200'' (JStr ''tok'') w)
     = Inl NetworkError"
  by (simp_all add: login_def getSystemInfo_def listBackups_def makeRequest_def other_respond
        old_respond_backups machine_id_of_systeminfo)
     (simp add: systeminfo_value_def)






lemma mail_transport:
  "demo_transport (login_request demo_env plain_options mail_url pw) = Some (ok_response login_data)"
  "demo_transport (systeminfo_request demo_env plain_options mail_url tok) = Some (ok_response mail_systeminfo_data)"
  "demo_transport (backups_request demo_env plain_options mail_url tok) = Some (ok_response mail_backups_data)"
  "demo_transport (log_request demo_env plain_options mail_url tok (JStr ''5''))
     = Some (ok_response (log_data [mail_run]))"
  by (simp_all add: demo_transport_def login_request_def systeminfo_request_def
        backups_request_def log_request_def authorized_def mail_url_def)

lemma mail_respond:
  "respond demo_env (login_request demo_env plain_options mail_url pw)
     = Inr \<lparr>ok = True, status_code = 200, statusText = ''OK'',
            json = JObj [(''AccessToken'', JStr ''tok'')]\<rparr>"
  "respond demo_env (systeminfo_request demo_env plain_options mail_url tok)
     = Inr \<lparr>ok = True, status_code = 200, statusText = ''OK'',
            json = systeminfo_value ''mail'' ''m-5''\<rparr>"
  "respond demo_env (backups_request demo_env plain_options mail_url tok)
     = Inr \<lparr>ok = True, status_code = 200, statusText = ''OK'', json = JArr mail_backups\<rparr>"
  "respond demo_env (log_request demo_env plain_options mail_url tok (JStr ''5''))
     = Inr \<lparr>ok = True, status_code = 200, statusText = ''OK'', json = JArr [entry mail_run]\<rparr>"
  by (simp_all add: demo_respond mail_transport demo_parse)

lemma mail_stages:
  "fst (login demo_env plain_options mail_url (JStr ''secret'') w) = Inr (JStr ''tok'')"
  "fst (getSystemInfo demo_env plain_options mail_url (JStr ''tok'') w)
     = Inr (JStr ''m-5'', JStr ''mail'')"
  "fst (listBackups demo_env plain_options mail_url (JStr ''tok'') w)
     = Inr (mail_backups, [JStr ''5''])"
  by (simp_all add: login_def getSystemInfo_def listBackups_def makeRequest_def mail_respond
        machine_id_of_systeminfo)
     (simp_all add: systeminfo_value_def mail_backups_def job_value_def)

lemma mail_name: "find_backup_name mail_backups 0 (JStr ''5'') = JStr ''Mail''"
  by (simp add: find_backup_name_def mail_backups_def job_value_def js_strict_eq_def)

lemma mail_message:
  "parse_message demo_env (entry mail_run)
     = Inr (home_message ''2025-03-06T02:00:00Z'' ''2025-03-06T02:10:00Z'')"
  by (simp add: parse_message_def entry_def demo_sel demo_parse)

lemma mail_retained: "is_backup_message demo_env (entry mail_run)"
  by (simp add: is_backup_message_def mail_message js_opt_def home_message_def)

lemma mail_dates:
  "demo_date_iso (JStr ''2025-03-06T02:00:00Z'') = Some ''2025-03-06T02:00:00.000Z''"
  "demo_date_iso (JStr ''2025-03-06T02:10:00Z'') = Some ''2025-03-06T02:10:00.000Z''"
  by (simp_all add: demo_date_iso_def)

lemma mail_entry:
  "process_entry demo_env machineId mail_backups 0 (JStr ''5'') (entry mail_run) c w =
     (if checkDuplicateBackup (backups_table w) machineId (JStr ''Mail'') (JStr ''2025-03-06T02:00:00.000Z'')
      then (None, c\<lparr>skippedCount := skippedCount c + 1\<rparr>,
            w\<lparr>trace := trace w @ [DbCheckDuplicate machineId (JStr ''Mail'')
                                    (JStr ''2025-03-06T02:00:00.000Z'') True]\<rparr>)
      else (let r = row_literal demo_env (JStr (demo_uuidv4 (uuid_calls w))) machineId (JStr ''Mail'')
                      (JStr ''5'') ''2025-03-06T02:00:00.000Z'' (JStr ''Success'')
                      (home_message ''2025-03-06T02:00:00Z'' ''2025-03-06T02:10:00Z'')
                      (JStr ''2025-03-06T02:00:00.000Z'') (JStr ''2025-03-06T02:10:00.000Z'')
                      JNull JNull in
            (None, c\<lparr>processedCount := processedCount c + 1\<rparr>,
             w\<lparr>trace := trace w @ [DbCheckDuplicate machineId (JStr ''Mail'')
                                     (JStr ''2025-03-06T02:00:00.000Z'') False,
                                   DbInsertBackup r],
               uuid_calls := uuid_calls w + 1,
               backups_table := backups_table w @ [r]\<rparr>)))"
  by (rule demo_entry [OF mail_message])
     (simp_all add: home_message_def mail_dates mail_name map_status_def js_gt_zero_def)

lemma mail_jobs_first:
  "process_jobs demo_env plain_options mail_url (JStr ''tok'') (JStr ''m-5'') mail_backups 0
     [JStr ''5''] no_counters
     (listed_world demo_env plain_options mail_url (JStr ''secret'') (JStr ''tok'')
        (JStr ''m-5'') (JStr ''mail'') empty_world)
   = (\<lparr>processedCount = 1, skippedCount = 0, errorCount = 0\<rparr>, mail_world1)"
  by (simp add: process_job_def try_job_fetched [OF mail_respond(4)] mail_retained mail_entry
        listed_world_def empty_world_def no_counters_def mail_world1_def upsertMachine_def
        checkDuplicateBackup_def Let_def mail_row_def)

lemma mail_target: "baseUrl_of e (target_body ''mail.local'') = mail_url"
  by (simp add: target_baseUrl mail_url_def)

lemma mail_first_run:
  "POST demo_env (Some (target_body ''mail.local'')) empty_world
     = (stats_response \<lparr>processedCount = 1, skippedCount = 0, errorCount = 0\<rparr>, mail_world1)"
proof (rule POST_counted [where authToken = "JStr ''tok''" and machineId = "JStr ''m-5''"
        and machineName = "JStr ''mail''" and backups = mail_backups
        and backupIds = "[JStr ''5'']"])
  show "process_jobs demo_env (options_of (target_body ''mail.local''))
     (baseUrl_of demo_env (target_body ''mail.local'')) (JStr ''tok'') (JStr ''m-5'') mail_backups 0
     [JStr ''5''] no_counters
     (listed_world demo_env (options_of (target_body ''mail.local''))
       (baseUrl_of demo_env (target_body ''mail.local'')) (password_of (target_body ''mail.local''))
       (JStr ''tok'') (JStr ''m-5'') (JStr ''mail'') empty_world) =
    (\<lparr>processedCount = 1, skippedCount = 0, errorCount = 0\<rparr>, mail_world1)"
    by (simp only: target_options mail_target target_password mail_jobs_first)
qed (simp_all add: target_valid target_options mail_target target_password mail_stages)

lemma mail_second_run:
  "POST demo_env (Some (target_body ''mail.local'')) mail_world1
     = (stats_response \<lparr>processedCount = 0, skippedCount = 1, errorCount = 0\<rparr>, mail_world2)"
  and mail_second_uuid: "uuid_calls mail_world2 = uuid_calls mail_world1"
proof -
  have u: "uuid_calls mail_world1 = uuid_calls empty_world
             + processedCount \<lparr>processedCount = 1, skippedCount = 0, errorCount = 0\<rparr>"
    by (simp add: mail_world1_def empty_world_def)
  from second_call [OF mail_first_run u] obtain c2 w2 where
    p: "POST demo_env (Some (target_body ''mail.local'')) mail_world1 = (stats_response c2, w2)"
    and c: "processedCount c2 = 0" "skippedCount c2 = 1" "errorCount c2 = 0"
    and w: "uuid_calls w2 = uuid_calls mail_world1"
    by auto
  from c have "c2 = \<lparr>processedCount = 0, skippedCount = 1, errorCount = 0\<rparr>"
    by (intro counters_eq) simp_all
  moreover from p have "w2 = mail_world2" by (simp add: mail_world2_def)
  ultimately show "POST demo_env (Some (target_body ''mail.local'')) mail_world1
     = (stats_response \<lparr>processedCount = 0, skippedCount = 1, errorCount = 0\<rparr>, mail_world2)"
    and "uuid_calls mail_world2 = uuid_calls mail_world1"
    using p w by simp_all
qed

lemma mail_third_run:
  "fst (POST demo_env (Some (target_body ''mail.local'')) mail_world2)
     = stats_response \<lparr>processedCount = 0, skippedCount = 1, errorCount = 0\<rparr>"
proof -
  have u: "uuid_calls mail_world2 = uuid_calls mail_world1
             + processedCount \<lparr>processedCount = 0, skippedCount = 1, errorCount = 0\<rparr>"
    by (simp add: mail_second_uuid)
  from second_call [OF mail_second_run u] obtain c3 w3 where
    p: "POST demo_env (Some (target_body ''mail.local'')) mail_world2 = (stats_response c3, w3)"
    and c: "processedCount c3 = 0" "skippedCount c3 = 1" "errorCount c3 = 0"
    by auto
  from c have "c3 = \<lparr>processedCount = 0, skippedCount = 1, errorCount = 0\<rparr>"
    by (intro counters_eq) simp_all
  with p show ?thesis by simp
qed

section \<open>The claims\<close>

text \<open>
  C1. Whatever the request, the server and the store, every call of \<open>insertBackup.run\<close> in
  an invocation comes immediately after a duplicate lookup on the row's own triple (machine
  id, backup name, start time) that returned false (\<open>gated\<close>), and every such call stores
  its row. So the rows an invocation adds have pairwise different triples, none of them a
  triple the store already held: two log entries with the same machine id, backup name and
  start time yield at most one row, whatever their other fields. In a counted result,
  \<open>processed\<close> is the number of rows added and \<open>skipped\<close> the number of lookups that
  returned true.
\<close>

theorem dedup_gate_before_every_insert:
  assumes "POST e rq w = (resp, w')"
  shows "\<exists>evs. trace w' = trace w @ evs \<and> gated evs
           \<and> backups_table w' = backups_table w @ inserted_rows evs
           \<and> distinct (map row_key (inserted_rows evs))
           \<and> row_key ` set (inserted_rows evs) \<inter> row_key ` set (backups_table w) = {}
           \<and> (\<forall>c. resp = stats_response c \<longrightarrow>
                  processedCount c = length (inserted_rows evs) \<and> skippedCount c = skips evs)"
proof -
  have "\<exists>c'. accounted no_counters w c' w'
     \<and> (\<forall>c. resp = stats_response c \<longrightarrow>
           processedCount c = processedCount c' \<and> skippedCount c = skippedCount c')"
  proof (cases rq)
    case None
    with assms have "w' = w" "resp = NextResponse_json (JObj [(''error'', JStr (exn_message SyntaxError))]) 500"
      by (simp_all add: POST_def try_POST_def)
    then have "accounted no_counters w no_counters w'
         \<and> (\<forall>c. resp = stats_response c \<longrightarrow>
           processedCount c = processedCount no_counters \<and> skippedCount c = skippedCount no_counters)"
      by (simp add: accounted_refl)
    then show ?thesis by (rule exI [of _ no_counters])
  next
    case (Some b)
    show ?thesis
    proof (cases "valid_config b")
      case False
      note inv = try_POST_invalid [OF False, of e w]
      from assms Some have w: "w' = snd (try_POST e (Some b) w)"
        and resp: "resp = (case fst (try_POST e (Some b) w) of
            Inl x \<Rightarrow> NextResponse_json (JObj [(''error'', JStr (exn_message x))]) 500
          | Inr r \<Rightarrow> r)"
        by (simp_all add: POST_eq)
      have "resp \<noteq> stats_response c" for c
      proof (cases "fst (try_POST e (Some b) w)")
        case (Inl x)
        with resp show ?thesis by simp
      next
        case (Inr r)
        with inv(2) obtain msg where "r = NextResponse_json (JObj [(''error'', JStr msg)]) 400"
          by blast
        with resp Inr show ?thesis by simp
      qed
      moreover have "w' = w" using w inv(1) by simp
      ultimately have "accounted no_counters w no_counters w'
         \<and> (\<forall>c. resp = stats_response c \<longrightarrow>
           processedCount c = processedCount no_counters \<and> skippedCount c = skippedCount no_counters)"
        by (simp add: accounted_refl)
      then show ?thesis by (rule exI [of _ no_counters])
    next
      case True
      obtain res w1 where rc: "run_collection e (options_of b) (baseUrl_of e b) (password_of b) w = (res, w1)"
        by (cases "run_collection e (options_of b) (baseUrl_of e b) (password_of b) w") auto
      from POST_valid [OF True rc] assms Some
      have r: "w' = w1" "resp = (case res of
        Inl x \<Rightarrow> NextResponse_json (JObj [(''error'', JStr (exn_message x))]) 500
      | Inr r \<Rightarrow> r)" by simp_all
      from run_collection_accounted [OF rc] obtain c' where
        "accounted no_counters w c' w1"
        "\<forall>c. res = Inr (stats_response c) \<longrightarrow>
           processedCount c = processedCount c' \<and> skippedCount c = skippedCount c'"
        by blast
      moreover have "\<forall>c. resp = stats_response c \<longrightarrow> res = Inr (stats_response c)"
        using r(2) by (cases res) simp_all
      ultimately have "accounted no_counters w c' w'
         \<and> (\<forall>c. resp = stats_response c \<longrightarrow>
           processedCount c = processedCount c' \<and> skippedCount c = skippedCount c')"
        using r(1) by simp
      then show ?thesis by (rule exI [of _ c'])
    qed
  qed
  then obtain c' where acc: "accounted no_counters w c' w'"
    and rs: "\<forall>c. resp = stats_response c \<longrightarrow>
           processedCount c = processedCount c' \<and> skippedCount c = skippedCount c'"
    by blast
  from acc [unfolded accounted_def] obtain evs where ev:
    "trace w' = trace w @ evs \<and> gated evs
        \<and> backups_table w' = backups_table w @ inserted_rows evs
        \<and> distinct (map row_key (inserted_rows evs))
        \<and> row_key ` set (inserted_rows evs) \<inter> row_key ` set (backups_table w) = {}
        \<and> processedCount c' = processedCount no_counters + length (inserted_rows evs)
        \<and> skippedCount c' = skippedCount no_counters + skips evs
        \<and> errorCount no_counters \<le> errorCount c'
        \<and> uuid_calls w + length (inserted_rows evs) \<le> uuid_calls w'" ..
  show ?thesis
    by (rule exI [of _ evs]) (use ev rs in \<open>simp add: no_counters_def\<close>)
qed

theorem dedup_gate_before_every_insert_witness:
  "POST demo_env (Some (target_body ''nas.local'')) empty_world
     = (stats_response \<lparr>processedCount = 2, skippedCount = 0, errorCount = 1\<rparr>, nas_world1)
   \<and> (\<exists>evs. trace nas_world1 = trace empty_world @ evs \<and> gated evs
           \<and> backups_table nas_world1 = backups_table empty_world @ inserted_rows evs
           \<and> distinct (map row_key (inserted_rows evs))
           \<and> row_key ` set (inserted_rows evs) \<inter> row_key ` set (backups_table empty_world) = {}
           \<and> (\<forall>c. stats_response \<lparr>processedCount = 2, skippedCount = 0, errorCount = 1\<rparr>
                    = stats_response c \<longrightarrow>
                  processedCount c = length (inserted_rows evs) \<and> skippedCount c = skips evs))"
  using dedup_gate_before_every_insert [OF nas_first_run] nas_first_run by (intro conjI)

text \<open>
  C2. When the loop body stores a row for a log entry, the row's status is the message's
  \<open>ParsedResult\<close>, except that it is \<open>Warning\<close> when \<open>ParsedResult\<close> is exactly \<open>Success\<close> and
  \<open>WarningsActualLength > 0\<close> holds. A \<open>Success\<close> whose length is not above 0 stays
  \<open>Success\<close>, and any other result, \<open>Error\<close> included, passes through. What \<open>> 0\<close> says
  of each kind of value: a finite number is above 0 when it is strictly positive, whole or
  not; of the infinities the positive one is; an absent length, \<open>null\<close> and \<open>false\<close>
  are not and \<open>true\<close> is; a string is when the number the engine reads in it is; an
  array or an object is when its string is.
\<close>

theorem stored_status_override:
  fixes message :: jsval
  defines "len \<equiv> js_prop message ''WarningsActualLength''"
  assumes "process_entry e machineId backups i backupId log_entry c w = (x, c', w')"
    and "parse_message e log_entry = Inr message"
    and "backups_table w' \<noteq> backups_table w"
  shows "\<exists>r st. backups_table w' = backups_table w @ [r] \<and> row_field r ''status'' = st
      \<and> (js_prop message ''ParsedResult'' = JStr ''Success'' \<and> js_gt_zero e len
            \<longrightarrow> st = JStr ''Warning'')
      \<and> (js_prop message ''ParsedResult'' = JStr ''Success'' \<and> \<not> js_gt_zero e len
            \<longrightarrow> st = JStr ''Success'')
      \<and> (js_prop message ''ParsedResult'' \<noteq> JStr ''Success''
            \<longrightarrow> st = js_prop message ''ParsedResult'')
      \<and> (\<forall>q. len = JNum (Finite q) \<longrightarrow> js_gt_zero e len = (0 < q))
      \<and> (len = JNum Infinity \<longrightarrow> js_gt_zero e len)
      \<and> (len = JNum NegInfinity \<longrightarrow> \<not> js_gt_zero e len)
      \<and> (len = JUndefined \<or> len = JNull \<longrightarrow> \<not> js_gt_zero e len)
      \<and> (\<forall>b. len = JBool b \<longrightarrow> js_gt_zero e len = b)
      \<and> (\<forall>s n. len = JStr s \<and> text_number e s = Some n \<longrightarrow> js_gt_zero e len = gt_zero n)
      \<and> (\<forall>s. len = JStr s \<and> text_number e s = None \<longrightarrow> \<not> js_gt_zero e len)
      \<and> (is_reference len \<longrightarrow> js_gt_zero e len = js_gt_zero e (JStr (js_to_string e len)))"
proof -
  have gt: "\<forall>q. len = JNum (Finite q) \<longrightarrow> js_gt_zero e len = (0 < q)"
    "len = JNum Infinity \<longrightarrow> js_gt_zero e len"
    "len = JNum NegInfinity \<longrightarrow> \<not> js_gt_zero e len"
    "len = JUndefined \<or> len = JNull \<longrightarrow> \<not> js_gt_zero e len"
    "\<forall>b. len = JBool b \<longrightarrow> js_gt_zero e len = b"
    "\<forall>s n. len = JStr s \<and> text_number e s = Some n \<longrightarrow> js_gt_zero e len = gt_zero n"
    "\<forall>s. len = JStr s \<and> text_number e s = None \<longrightarrow> \<not> js_gt_zero e len"
    by (auto simp: js_gt_zero_def)
  have ref: "is_reference len \<longrightarrow> js_gt_zero e len = js_gt_zero e (JStr (js_to_string e len))"
    by (cases len) (simp_all add: js_gt_zero_def)
  from assms obtain beginTime backupDate r where
    "js_get message ''BeginTime'' = Inr beginTime" "date_iso e beginTime = Some backupDate"
    and r: "build_row e (JStr (uuidv4 e (uuid_calls w))) machineId
          (find_backup_name backups i backupId) backupId backupDate (map_status e message) message
          = Inr r"
    and t: "backups_table w' = backups_table w @ [r]"
    by (auto simp: process_entry_def Let_def insertBackup_def
          split: sum.splits option.splits if_splits prod.splits)
  from r have "row_field r ''status'' = map_status e message"
    by (auto dest!: build_row_Inr simp: row_literal_status)
  with t gt ref show ?thesis
    by (intro exI [of _ r] exI [of _ "map_status e message"]) (simp add: map_status_def len_def)
qed

theorem stored_status_override_witness:
  "parse_message demo_env (entry docs_run) = Inr docs_message
   \<and> js_prop docs_message ''ParsedResult'' = JStr ''Success''
   \<and> js_prop docs_message ''WarningsActualLength'' = JNum (Finite 2)
   \<and> process_entry demo_env (JStr ''m-1'') nas_backups 0 (JStr ''1'') (entry docs_run) no_counters
         empty_world
       = (None, \<lparr>processedCount = 1, skippedCount = 0, errorCount = 0\<rparr>,
          empty_world\<lparr>trace := [DbCheckDuplicate (JStr ''m-1'') (JStr ''Docs'')
                                    (JStr ''2025-03-01T02:00:00.000Z'') False,
                                  DbInsertBackup docs_row],
                        uuid_calls := 1, backups_table := [docs_row]\<rparr>)
   \<and> row_field docs_row ''status'' = JStr ''Warning''"
proof -
  let ?w' = "empty_world\<lparr>trace := [DbCheckDuplicate (JStr ''m-1'') (JStr ''Docs'')
                                    (JStr ''2025-03-01T02:00:00.000Z'') False,
                                  DbInsertBackup docs_row],
                        uuid_calls := 1, backups_table := [docs_row]\<rparr>"
  have pe: "process_entry demo_env (JStr ''m-1'') nas_backups 0 (JStr ''1'') (entry docs_run)
         no_counters empty_world
       = (None, \<lparr>processedCount = 1, skippedCount = 0, errorCount = 0\<rparr>, ?w')"
    by (simp add: docs_entry empty_world_def no_counters_def checkDuplicateBackup_def Let_def
          docs_row_def)
  have ne: "backups_table ?w' \<noteq> backups_table empty_world" by (simp add: empty_world_def)
  have m: "js_prop docs_message ''ParsedResult'' = JStr ''Success''"
    "js_prop docs_message ''WarningsActualLength'' = JNum (Finite 2)"
    by (simp_all add: docs_message_def)
  from stored_status_override [OF pe demo_messages(1) ne] obtain r st where
    "backups_table ?w' = backups_table empty_world @ [r]" "row_field r ''status'' = st"
    "js_prop docs_message ''ParsedResult'' = JStr ''Success''
       \<and> js_gt_zero demo_env (js_prop docs_message ''WarningsActualLength'')
       \<longrightarrow> st = JStr ''Warning''"
    "\<forall>q. js_prop docs_message ''WarningsActualLength'' = JNum (Finite q)
       \<longrightarrow> js_gt_zero demo_env (js_prop docs_message ''WarningsActualLength'') = (0 < q)"
    by blast
  with m have "row_field docs_row ''status'' = JStr ''Warning''"
    by (simp add: empty_world_def)
  with pe m demo_messages(1) show ?thesis by (intro conjI)
qed

text \<open>
  C3, as stated, fails. Two successive collections from \<open>mail.local\<close>, a server with one
  job and one run and no failure anywhere, the store already holding that run from an
  earlier collection (\<open>mail_world1\<close>): the first of the two stores nothing and skips the
  run, and so does the second, whose \<open>skipped\<close> is 1 while the first's \<open>processed\<close> is 0.
\<close>

theorem second_call_skips_counterexample:
  "POST demo_env (Some (target_body ''mail.local'')) mail_world1
     = (stats_response \<lparr>processedCount = 0, skippedCount = 1, errorCount = 0\<rparr>, mail_world2)
   \<and> fst (POST demo_env (Some (target_body ''mail.local'')) mail_world2)
     = stats_response \<lparr>processedCount = 0, skippedCount = 1, errorCount = 0\<rparr>
   \<and> skippedCount \<lparr>processedCount = 0, skippedCount = 1, errorCount = 0\<rparr>
     \<noteq> processedCount \<lparr>processedCount = 0, skippedCount = 1, errorCount = 0\<rparr>"
  using mail_second_run mail_third_run by simp

text \<open>
  C3, amended. When an invocation returns a counted result and every record it built was
  inserted (each record draws one identifier from \<open>uuidv4\<close>, so the identifiers drawn equal
  the rows processed: no record failed to build between its lookup and its insert), then
  invoking again with the same request against the same server, from the store as the
  first call left it, returns a counted result with \<open>processed\<close> = 0, \<open>skipped\<close> equal to
  the first call's \<open>processed\<close> plus its \<open>skipped\<close>, and the same \<open>errors\<close>; the store's
  runs are unchanged.
\<close>

theorem second_call_idempotent:
  assumes "POST e rq w = (stats_response c1, w1)"
    and "uuid_calls w1 = uuid_calls w + processedCount c1"
  shows "\<exists>c2 w2. POST e rq w1 = (stats_response c2, w2)
     \<and> processedCount c2 = 0
     \<and> skippedCount c2 = processedCount c1 + skippedCount c1
     \<and> errorCount c2 = errorCount c1
     \<and> backups_table w2 = backups_table w1"
  using second_call [OF assms] by blast

theorem second_call_idempotent_witness:
  "POST demo_env (Some (target_body ''nas.local'')) empty_world
     = (stats_response \<lparr>processedCount = 2, skippedCount = 0, errorCount = 1\<rparr>, nas_world1)
   \<and> uuid_calls nas_world1 = uuid_calls empty_world + 2
   \<and> (\<exists>c2 w2. POST demo_env (Some (target_body ''nas.local'')) nas_world1 = (stats_response c2, w2)
     \<and> processedCount c2 = 0 \<and> skippedCount c2 = 2 \<and> errorCount c2 = 1
     \<and> backups_table w2 = backups_table nas_world1)"
proof -
  have u: "uuid_calls nas_world1 = uuid_calls empty_world
             + processedCount \<lparr>processedCount = 2, skippedCount = 0, errorCount = 1\<rparr>"
    by (simp add: nas_world1_def empty_world_def)
  from second_call_idempotent [OF nas_first_run u] nas_first_run u show ?thesis by simp
qed



text \<open>
  C5. For a request body (any JSON value but \<open>null\<close>) whose hostname is missing or empty,
  or whose password is missing or empty, or whose protocol is given and is neither \<open>http\<close>
  nor \<open>https\<close>, the handler answers with status 400 and one of its three configuration
  messages, and the world is exactly as before: no request was issued and the store was
  neither read nor written.
\<close>

theorem config_error_before_any_effect:
  assumes "b \<noteq> JUndefined" and "b \<noteq> JNull"
    and "\<not> js_truthy (js_prop b ''hostname'') \<or> \<not> js_truthy (js_prop b ''password'')
         \<or> (protocol_of b \<noteq> JStr ''http'' \<and> protocol_of b \<noteq> JStr ''https'')"
  shows "\<exists>msg \<in> {''Hostname is required'', ''Password is required'',
                   ''Protocol must be either '' @ quoted ''http'' @ '' or '' @ quoted ''https''}.
           POST e (Some b) w = (NextResponse_json (JObj [(''error'', JStr msg)]) 400, w)"
proof -
  from assms(1,2) have g: "js_get b ''hostname'' = Inr (js_prop b ''hostname'')"
    by (cases b) auto
  consider (h) "\<not> js_truthy (js_prop b ''hostname'')"
    | (p) "js_truthy (js_prop b ''hostname'')" "\<not> js_truthy (js_prop b ''password'')"
    | (s) "js_truthy (js_prop b ''hostname'')" "js_truthy (js_prop b ''password'')"
          "protocol_of b \<noteq> JStr ''http''" "protocol_of b \<noteq> JStr ''https''"
    using assms(3) by blast
  then show ?thesis
  proof cases
    case h
    then have "POST e (Some b) w
       = (NextResponse_json (JObj [(''error'', JStr ''Hostname is required'')]) 400, w)"
      by (simp add: POST_def try_POST_def g Let_def)
    then show ?thesis by blast
  next
    case p
    then have "POST e (Some b) w
       = (NextResponse_json (JObj [(''error'', JStr ''Password is required'')]) 400, w)"
      by (simp add: POST_def try_POST_def g Let_def)
    then show ?thesis by blast
  next
    case s
    then have "POST e (Some b) w
       = (NextResponse_json (JObj [(''error'', JStr (''Protocol must be either '' @ quoted ''http''
            @ '' or '' @ quoted ''https''))]) 400, w)"
      by (simp add: POST_def try_POST_def g Let_def protocol_of_def)
    then show ?thesis by blast
  qed
qed

theorem config_error_before_any_effect_witness:
  "JObj [(''hostname'', JStr ''nas.local''), (''password'', JStr ''secret''),
         (''protocol'', JStr ''ftp'')] \<noteq> JNull
   \<and> protocol_of (JObj [(''hostname'', JStr ''nas.local''), (''password'', JStr ''secret''),
         (''protocol'', JStr ''ftp'')]) = JStr ''ftp''
   \<and> POST demo_env (Some (JObj [(''hostname'', JStr ''nas.local''), (''password'', JStr ''secret''),
         (''protocol'', JStr ''ftp'')])) empty_world
       = (NextResponse_json (JObj [(''error'', JStr (''Protocol must be either '' @ quoted ''http''
            @ '' or '' @ quoted ''https''))]) 400, empty_world)"
proof -
  let ?b = "JObj [(''hostname'', JStr ''nas.local''), (''password'', JStr ''secret''),
         (''protocol'', JStr ''ftp'')]"
  have p: "protocol_of ?b = JStr ''ftp''" by (simp add: protocol_of_def js_default_def)
  then have h: "\<not> js_truthy (js_prop ?b ''hostname'') \<or> \<not> js_truthy (js_prop ?b ''password'')
         \<or> (protocol_of ?b \<noteq> JStr ''http'' \<and> protocol_of ?b \<noteq> JStr ''https'')"
    by simp
  have n: "?b \<noteq> JUndefined" "?b \<noteq> JNull" by simp_all
  from config_error_before_any_effect [OF n h, of demo_env empty_world] obtain msg where
    "POST demo_env (Some ?b) empty_world = (NextResponse_json (JObj [(''error'', JStr msg)]) 400, empty_world)"
    by blast
  moreover have "POST demo_env (Some ?b) empty_world
       = (NextResponse_json (JObj [(''error'', JStr (''Protocol must be either '' @ quoted ''http''
            @ '' or '' @ quoted ''https''))]) 400, empty_world)"
    using p by (simp add: POST_def try_POST_def Let_def protocol_of_def)
  ultimately show ?thesis using p by simp
qed

text \<open>
  C6. A log entry whose message cannot be read or decoded, or whose decoded
  \<open>MainOperation\<close> is not exactly \<open>Backup\<close>, leaves no mark: processing a job's log with
  the entry anywhere in it gives the same exception, the same three tallies and the same
  world as processing the log without it, and a log holding only that entry changes
  nothing.
\<close>

theorem noise_entry_leaves_no_mark:
  assumes "(\<exists>x. parse_message e log_entry = Inl x)
         \<or> (\<exists>m. parse_message e log_entry = Inr m \<and> js_opt m ''MainOperation'' \<noteq> JStr ''Backup'')"
  shows "process_logs e machineId backups i backupId (JArr (before @ log_entry # after)) c w
           = process_logs e machineId backups i backupId (JArr (before @ after)) c w
       \<and> process_logs e machineId backups i backupId (JArr [log_entry]) c w = (None, c, w)"
proof -
  from assms have "\<not> is_backup_message e log_entry"
    by (auto simp: is_backup_message_def)
  then show ?thesis by (simp add: process_logs_def)
qed

theorem noise_entry_leaves_no_mark_witness:
  "parse_message demo_env (entry docs_compact) = Inr compact_message
   \<and> js_opt compact_message ''MainOperation'' = JStr ''Compact''
   \<and> process_logs demo_env (JStr ''m-1'') nas_backups 0 (JStr ''1'')
         (JArr ([entry docs_run] @ entry docs_compact # [])) no_counters empty_world
       = process_logs demo_env (JStr ''m-1'') nas_backups 0 (JStr ''1'')
         (JArr ([entry docs_run] @ [])) no_counters empty_world
   \<and> process_logs demo_env (JStr ''m-1'') nas_backups 0 (JStr ''1'')
         (JArr [entry docs_compact]) no_counters empty_world = (None, no_counters, empty_world)"
proof -
  have m: "js_opt compact_message ''MainOperation'' = JStr ''Compact''"
    by (simp add: compact_message_def js_opt_def)
  then have h: "(\<exists>x. parse_message demo_env (entry docs_compact) = Inl x)
         \<or> (\<exists>m. parse_message demo_env (entry docs_compact) = Inr m
                \<and> js_opt m ''MainOperation'' \<noteq> JStr ''Backup'')"
    by (simp add: demo_messages)
  from noise_entry_leaves_no_mark [OF h, of "JStr ''m-1''" nas_backups 0 "JStr ''1''"
      "[entry docs_run]" "[]" no_counters empty_world] m demo_messages(2)
  show ?thesis by (intro conjI) simp_all
qed

text \<open>
  C7. Login and system info succeed and the server answers the job list with an empty
  array. Then the handler returns the message \<open>No backups found\<close> with status 200, which is
  neither an error nor a counted result; it has made the three requests and the machine
  upsert and nothing else: no log is requested and the stored runs are untouched.
\<close>

theorem no_backups_outcome:
  assumes "valid_config b"
    and "fst (login e (options_of b) (baseUrl_of e b) (password_of b) w) = Inr authToken"
    and "fst (getSystemInfo e (options_of b) (baseUrl_of e b) authToken w) = Inr (machineId, machineName)"
    and "respond e (backups_request e (options_of b) (baseUrl_of e b) authToken) = Inr r"
    and "ok r" and "json r = JArr []"
  shows "\<exists>w'. POST e (Some b) w
            = (NextResponse_json (JObj [(''message'', JStr ''No backups found'')]) 200, w')
       \<and> backups_table w' = backups_table w
       \<and> trace w' = trace w @
            [NetRequest (login_request e (options_of b) (baseUrl_of e b) (password_of b)),
             NetRequest (systeminfo_request e (options_of b) (baseUrl_of e b) authToken),
             DbUpsertMachine machineId machineName,
             NetRequest (backups_request e (options_of b) (baseUrl_of e b) authToken)]
       \<and> (\<forall>c. NextResponse_json (JObj [(''message'', JStr ''No backups found'')]) 200
                 \<noteq> stats_response c)"
proof -
  let ?w4 = "listed_world e (options_of b) (baseUrl_of e b) (password_of b) authToken
               machineId machineName w"
  have lb: "fst (listBackups e (options_of b) (baseUrl_of e b) authToken w) = Inr ([], [])"
    using assms(4-6) by (rule listBackups_empty)
  have "run_collection e (options_of b) (baseUrl_of e b) (password_of b) w
          = (Inr no_backups_response, ?w4)"
    using run_collection_listed [OF assms(2,3)] lb by (simp add: Let_def)
  from POST_valid [OF assms(1) this]
  have "POST e (Some b) w = (no_backups_response, ?w4)" by simp
  then show ?thesis
    by (intro exI [of _ ?w4]) (simp add: no_backups_response_def listed_world_def stats_response_def)
qed

theorem no_backups_outcome_witness:
  "valid_config (target_body ''new.local'')
   \<and> ok \<lparr>ok = True, status_code = 200, statusText = ''OK'', json = JArr []\<rparr>
   \<and> (\<exists>w'. POST demo_env (Some (target_body ''new.local'')) empty_world
            = (NextResponse_json (JObj [(''message'', JStr ''No backups found'')]) 200, w')
       \<and> backups_table w' = backups_table empty_world
       \<and> trace w' = trace empty_world @
            [NetRequest (login_request demo_env plain_options ''http://new.local:8200'' (JStr ''secret'')),
             NetRequest (systeminfo_request demo_env plain_options ''http://new.local:8200'' (JStr ''tok'')),
             DbUpsertMachine (JStr ''m-3'') (JStr ''new''),
             NetRequest (backups_request demo_env plain_options ''http://new.local:8200'' (JStr ''tok''))]
       \<and> (\<forall>c. NextResponse_json (JObj [(''message'', JStr ''No backups found'')]) 200
                 \<noteq> stats_response c))"
proof -
  let ?b = "target_body ''new.local''"
  have u: "baseUrl_of demo_env ?b = ''http://new.local:8200''" by (simp add: target_baseUrl)
  have v: "valid_config ?b" by (rule target_valid)
  have l: "fst (login demo_env (options_of ?b) (baseUrl_of demo_env ?b) (password_of ?b) empty_world)
             = Inr (JStr ''tok'')"
    by (simp add: target_options u target_password new_stages)
  have s: "fst (getSystemInfo demo_env (options_of ?b) (baseUrl_of demo_env ?b) (JStr ''tok'') empty_world)
             = Inr (JStr ''m-3'', JStr ''new'')"
    by (simp add: target_options u new_stages)
  have r: "respond demo_env (backups_request demo_env (options_of ?b) (baseUrl_of demo_env ?b) (JStr ''tok''))
     = Inr \<lparr>ok = True, status_code = 200, statusText = ''OK'', json = JArr []\<rparr>"
    by (simp add: target_options u other_respond)
  have k: "ok \<lparr>ok = True, status_code = 200, statusText = ''OK'', json = JArr []\<rparr>"
    and j: "json \<lparr>ok = True, status_code = 200, statusText = ''OK'', json = JArr []\<rparr> = JArr []"
    by simp_all
  from no_backups_outcome [OF v l s r k j] v k show ?thesis
    by (simp add: target_options u target_password)
qed





text \<open>
  C10. Once login and system info have succeeded, the machine is upserted before the job
  list is requested. So however the invocation ends, the machines table it leaves is the
  one it found with the machine upserted, the machine's row is in it, and the invocation's
  effects begin with: login request, system-info request, machine upsert, job-list request.
  In particular, when listing the jobs fails, the caller gets the error with status 500
  and the machine row is stored all the same.
\<close>

theorem machine_upserted_before_listing:
  assumes "valid_config b"
    and "fst (login e (options_of b) (baseUrl_of e b) (password_of b) w) = Inr authToken"
    and "fst (getSystemInfo e (options_of b) (baseUrl_of e b) authToken w) = Inr (machineId, machineName)"
    and "POST e (Some b) w = (resp, w')"
  shows "machines_table w' = upsertMachine (machines_table w) machineId machineName
       \<and> (machineId, machineName) \<in> set (machines_table w')
       \<and> (\<exists>later. trace w' = trace w @
            [NetRequest (login_request e (options_of b) (baseUrl_of e b) (password_of b)),
             NetRequest (systeminfo_request e (options_of b) (baseUrl_of e b) authToken),
             DbUpsertMachine machineId machineName,
             NetRequest (backups_request e (options_of b) (baseUrl_of e b) authToken)] @ later)
       \<and> (\<forall>x. fst (listBackups e (options_of b) (baseUrl_of e b) authToken w) = Inl x \<longrightarrow>
             resp = NextResponse_json (JObj [(''error'', JStr (exn_message x))]) 500)"
proof -
  let ?o = "options_of b" and ?u = "baseUrl_of e b" and ?p = "password_of b"
  let ?w4 = "listed_world e ?o ?u ?p authToken machineId machineName w"
  let ?evs = "[NetRequest (login_request e ?o ?u ?p),
             NetRequest (systeminfo_request e ?o ?u authToken),
             DbUpsertMachine machineId machineName,
             NetRequest (backups_request e ?o ?u authToken)]"
  obtain res w1 where rc: "run_collection e ?o ?u ?p w = (res, w1)"
    by (cases "run_collection e ?o ?u ?p w") auto
  from POST_valid [OF assms(1) rc] assms(4)
  have w': "w' = w1" and resp: "resp = (case res of
        Inl x \<Rightarrow> NextResponse_json (JObj [(''error'', JStr (exn_message x))]) 500
      | Inr r \<Rightarrow> r)" by simp_all
  note rl = run_collection_listed [OF assms(2,3)]
  have w4: "machines_table ?w4 = upsertMachine (machines_table w) machineId machineName"
    "trace ?w4 = trace w @ ?evs"
    by (simp_all add: listed_world_def)
  have main: "machines_table w1 = machines_table ?w4 \<and> (\<exists>later. trace w1 = trace ?w4 @ later)
     \<and> (\<forall>x. fst (listBackups e ?o ?u authToken w) = Inl x \<longrightarrow> res = Inl x)"
  proof (cases "fst (listBackups e ?o ?u authToken w)")
    case (Inl x)
    with rl rc have "res = Inl x" "w1 = ?w4" by (simp_all add: Let_def)
    with Inl show ?thesis by simp
  next
    case (Inr bb)
    obtain backups backupIds where bb: "bb = (backups, backupIds)" by (cases bb)
    show ?thesis
    proof (cases "backupIds = []")
      case True
      with rl rc Inr bb have "w1 = ?w4" by (simp add: Let_def)
      with Inr show ?thesis by simp
    next
      case False
      obtain c5 w5 where pj: "process_jobs e ?o ?u authToken machineId backups 0 backupIds
                       no_counters ?w4 = (c5, w5)"
        by (cases "process_jobs e ?o ?u authToken machineId backups 0 backupIds
                       no_counters ?w4") auto
      with rl rc Inr bb False have "w1 = w5" by (simp add: Let_def)
      moreover from pj have "machines_table w5 = machines_table ?w4"
        by (rule process_jobs_machines)
      moreover from process_jobs_accounted [OF pj] have "\<exists>later. trace w5 = trace ?w4 @ later"
        unfolding accounted_def by (elim exE conjE) (rule exI)
      ultimately show ?thesis using Inr by simp
    qed
  qed
  then obtain later where "trace w1 = trace ?w4 @ later" by blast
  then have "trace w' = trace w @ ?evs @ later" using w' w4(2) by simp
  moreover have "machines_table w' = upsertMachine (machines_table w) machineId machineName"
    using main w' w4(1) by simp
  moreover have "\<forall>x. fst (listBackups e ?o ?u authToken w) = Inl x \<longrightarrow>
             resp = NextResponse_json (JObj [(''error'', JStr (exn_message x))]) 500"
    using main resp by simp
  ultimately show ?thesis
    by (simp add: upsertMachine_member)
qed

theorem machine_upserted_before_listing_witness:
  "valid_config (target_body ''old.local'')
   \<and> fst (listBackups demo_env plain_options ''http://old.local:8200'' (JStr ''tok'') empty_world)
       = Inl NetworkError
   \<and> fst (POST demo_env (Some (target_body ''old.local'')) empty_world)
       = NextResponse_json (JObj [(''error'', JStr ''NetworkError'')]) 500
   \<and> machines_table empty_world = []
   \<and> machines_table (snd (POST demo_env (Some (target_body ''old.local'')) empty_world))
       = [(JStr ''m-4'', JStr ''old'')]"
proof -
  let ?b = "target_body ''old.local''"
  have u: "baseUrl_of demo_env ?b = ''http://old.local:8200''" by (simp add: target_baseUrl)
  have v: "valid_config ?b" by (rule target_valid)
  have l: "fst (login demo_env (options_of ?b) (baseUrl_of demo_env ?b) (password_of ?b) empty_world)
             = Inr (JStr ''tok'')"
    by (simp add: target_options u target_password old_stages)
  have s: "fst (getSystemInfo demo_env (options_of ?b) (baseUrl_of demo_env ?b) (JStr ''tok'') empty_world)
             = Inr (JStr ''m-4'', JStr ''old'')"
    by (simp add: target_options u old_stages)
  have p: "POST demo_env (Some ?b) empty_world
     = (fst (POST demo_env (Some ?b) empty_world), snd (POST demo_env (Some ?b) empty_world))"
    by simp
  from machine_upserted_before_listing [OF v l s p] v show ?thesis
    by (simp add: target_options u old_stages upsertMachine_def empty_world_def)
qed

end
